theory Spec2Isabelle
  imports Complex_Main "HOL-Library.Word" "HOL-Library.AList" "HOL-Library.Sublist"
begin

unbundle bit_operations_syntax

section \<open>Conventions of the embedding\<close>

text \<open>
  The engine is C++. Each class becomes a record of its data members, each member
  function a HOL function that takes the object and returns the updated object next to
  the returned value. One call runs to completion before the next one starts, so an
  atomic load, store, fetch-add or compare-and-swap is a plain read or write of the field
  and a compare-and-swap retry loop runs its body once. The one place where a call of
  another thread runs inside a call is \<open>try_publish_overtaken\<close> of the ring buffer.

  A \<open>double\<close> is an exact real number here: rounding, infinities and NaN are outside
  the embedding. A result of the source that depends on a rounding error, such as
  \<open>std::round\<close> of a quotient that is half-way in exact arithmetic, is not the
  result here. \<open>size_t\<close> and \<open>uint64_t\<close> are \<open>64 word\<close>; \<open>int64_t\<close> is an
  \<open>int\<close> kept in the signed 64-bit range by \<open>s64\<close>, which writes the wrap-around out.
\<close>

type_synonym double = real
type_synonym size_t = "64 word"

section \<open>Events (core/event\_types.h)\<close>

text \<open>
  Modelled from the spec: the header \<open>core/event_types.h\<close> that declares the event
  structs is not among the sources. The fields are the ones the spec lists for the
  MarketBar and Fill variants and the ones \<open>PositionManager\<close> reads (\<open>event.symbol\<close>,
  \<open>event.close\<close>, \<open>event.quantity\<close>, \<open>event.price\<close>, \<open>event.commission\<close>,
  \<open>event.is_buy\<close>); the prefixes keep the two \<open>symbol\<close> fields apart.
\<close>

record MarketDataEvent =
  md_symbol :: string
  md_open :: double
  md_high :: double
  md_low :: double
  md_close :: double
  md_volume :: double

record TradeExecutionEvent =
  te_symbol :: string
  te_quantity :: double
  te_price :: double
  te_commission :: double
  te_is_buy :: bool

section \<open>Position (position/position.h)\<close>

record Position =
  pos_symbol :: string
  pos_quantity :: double
  entry_price :: double
  current_price :: double
  unrealized_pnl :: double
  realized_pnl :: double

text \<open>The constructor \<open>Position(symbol, initial_quantity, initial_price)\<close>.\<close>

definition new_Position :: "string \<Rightarrow> double \<Rightarrow> double \<Rightarrow> Position" where
  "new_Position symbol initial_quantity initial_price =
     \<lparr>pos_symbol = symbol, pos_quantity = initial_quantity, entry_price = initial_price,
      current_price = initial_price, unrealized_pnl = 0, realized_pnl = 0\<rparr>"

definition is_long :: "Position \<Rightarrow> bool" where
  "is_long p = (pos_quantity p > 0)"

definition is_short :: "Position \<Rightarrow> bool" where
  "is_short p = (pos_quantity p < 0)"

definition is_flat :: "Position \<Rightarrow> bool" where
  "is_flat p = (\<bar>pos_quantity p\<bar> < 1 / 10 ^ 8)"

definition get_market_value :: "Position \<Rightarrow> double" where
  "get_market_value p = \<bar>pos_quantity p * current_price p\<bar>"

definition update_pnl :: "double \<Rightarrow> Position \<Rightarrow> Position" where
  "update_pnl latest_price p =
     (let qty = pos_quantity p; entry = entry_price p in
      if \<bar>qty\<bar> > 1 / 10 ^ 8
      then p\<lparr>current_price := latest_price,
             unrealized_pnl := (latest_price - entry) * qty\<rparr>
      else p\<lparr>current_price := latest_price, unrealized_pnl := 0\<rparr>)"

text \<open>
  \<open>adjust_position\<close> returns the realized P&L of the trade and the updated position.
  The steps follow the source: the closure test and the realized P&L first, then either
  the branch that keeps the position open (new entry price, quantity, \<open>update_pnl\<close> at
  the stored market price) or the branch that flattens it.
\<close>

definition adjust_position :: "double \<Rightarrow> double \<Rightarrow> Position \<Rightarrow> double \<times> Position" where
  "adjust_position quantity_delta trade_price p =
     (let current_qty = pos_quantity p;
          current_entry = entry_price p;
          new_qty = current_qty + quantity_delta;
          same_direction = (current_qty * quantity_delta \<ge> 0);
          position_closure = (current_qty \<noteq> 0 \<and>
             ((current_qty > 0 \<and> quantity_delta < 0) \<or>
              (current_qty < 0 \<and> quantity_delta > 0)));
          closed_quantity = min \<bar>quantity_delta\<bar> \<bar>current_qty\<bar>;
          realized_pnl_from_trade =
            (if position_closure
             then (trade_price - current_entry) * closed_quantity *
                  (if current_qty > 0 then 1 else - 1)
             else 0);
          p1 = (if position_closure
                then p\<lparr>realized_pnl := realized_pnl p + realized_pnl_from_trade\<rparr>
                else p)
      in if \<bar>new_qty\<bar> > 1 / 10 ^ 8
         then
           (let new_entry =
                  (if same_direction \<and> \<bar>new_qty\<bar> > \<bar>current_qty\<bar>
                   then (current_qty * current_entry + quantity_delta * trade_price) / new_qty
                   else current_entry);
                p2 = p1\<lparr>pos_quantity := new_qty, entry_price := new_entry\<rparr>
            in (realized_pnl_from_trade, update_pnl (current_price p2) p2))
         else (realized_pnl_from_trade, p1\<lparr>pos_quantity := 0, unrealized_pnl := 0\<rparr>))"

section \<open>Portfolio ledger (position/position\_manager.h, position\_manager.cpp)\<close>

text \<open>
  The performance and risk metrics of \<open>PortfolioStatistics\<close> are written only when
  performance monitoring is switched on (it is off by default) and are left out.
\<close>

record PortfolioStatistics =
  total_equity :: double
  available_cash :: double
  total_market_value :: double
  total_unrealized_pnl :: double
  total_realized_pnl :: double
  total_pnl :: double
  total_positions :: size_t
  long_positions :: size_t
  short_positions :: size_t

text \<open>
  \<open>positions\<close> is a \<open>std::unordered_map\<close>: an association list with one entry per
  key, read with \<open>map_of\<close>, written with \<open>AList.update\<close> and erased with
  \<open>AList.delete\<close>.
\<close>

record PositionManager =
  initial_capital :: double
  positions :: "(string \<times> Position) list"
  portfolio_stats :: PortfolioStatistics
  equity_curve :: "double list"
  trade_history :: "TradeExecutionEvent list"
  cached_total_equity :: double
  equity_cache_valid :: bool

definition new_PositionManager :: "double \<Rightarrow> PositionManager" where
  "new_PositionManager capital =
     \<lparr>initial_capital = capital,
      positions = [],
      portfolio_stats =
        \<lparr>total_equity = capital, available_cash = capital,
         total_market_value = 0, total_unrealized_pnl = 0, total_realized_pnl = 0,
         total_pnl = 0, total_positions = 0, long_positions = 0, short_positions = 0\<rparr>,
      equity_curve = [capital],
      trade_history = [],
      cached_total_equity = capital,
      equity_cache_valid = True\<rparr>"

text \<open>\<open>get_total_equity\<close> refreshes the mutable cache, so it returns the manager too.\<close>

definition get_total_equity :: "PositionManager \<Rightarrow> double \<times> PositionManager" where
  "get_total_equity pm =
     (if equity_cache_valid pm then (cached_total_equity pm, pm)
      else (let te = total_equity (portfolio_stats pm)
            in (te, pm\<lparr>cached_total_equity := te, equity_cache_valid := True\<rparr>)))"

definition get_available_cash :: "PositionManager \<Rightarrow> double" where
  "get_available_cash pm = available_cash (portfolio_stats pm)"

definition get_total_realized_pnl :: "PositionManager \<Rightarrow> double" where
  "get_total_realized_pnl pm = total_realized_pnl (portfolio_stats pm)"

text \<open>\<open>get_position_snapshot\<close> throws \<open>std::out_of_range\<close> for an unknown symbol.\<close>

definition get_position_snapshot :: "string \<Rightarrow> PositionManager \<Rightarrow> Position option" where
  "get_position_snapshot symbol pm = map_of (positions pm) symbol"

definition has_position :: "string \<Rightarrow> PositionManager \<Rightarrow> bool" where
  "has_position symbol pm =
     (case map_of (positions pm) symbol of None \<Rightarrow> False | Some p \<Rightarrow> \<not> is_flat p)"

definition on_market_data :: "MarketDataEvent \<Rightarrow> PositionManager \<Rightarrow> PositionManager" where
  "on_market_data event pm =
     (case map_of (positions pm) (md_symbol event) of
        None \<Rightarrow> pm
      | Some p \<Rightarrow>
         (let old_market_value = get_market_value p;
              p' = update_pnl (md_close event) p;
              new_market_value = get_market_value p';
              pm1 = pm\<lparr>positions := AList.update (md_symbol event) p' (positions pm)\<rparr>;
              market_value_change = new_market_value - old_market_value;
              st = portfolio_stats pm1;
              pm2 = (if \<bar>new_market_value - old_market_value\<bar> > 1 / 10 ^ 8
                     then pm1\<lparr>portfolio_stats :=
                                 st\<lparr>total_market_value := total_market_value st + market_value_change,
                                    total_equity := total_equity st + market_value_change\<rparr>,
                               equity_cache_valid := False\<rparr>
                     else pm1);
              (current_equity, pm3) = get_total_equity pm2
          in pm3\<lparr>equity_curve := equity_curve pm3 @ [current_equity]\<rparr>))"

definition get_or_create_position :: "string \<Rightarrow> PositionManager \<Rightarrow> Position \<times> PositionManager" where
  "get_or_create_position symbol pm =
     (case map_of (positions pm) symbol of
        Some p \<Rightarrow> (p, pm)
      | None \<Rightarrow>
         (let p = new_Position symbol 0 0
          in (p, pm\<lparr>positions := AList.update symbol p (positions pm)\<rparr>)))"

definition remove_flat_position :: "string \<Rightarrow> PositionManager \<Rightarrow> PositionManager" where
  "remove_flat_position symbol pm =
     (case map_of (positions pm) symbol of
        Some p \<Rightarrow> (if is_flat p then pm\<lparr>positions := AList.delete symbol (positions pm)\<rparr> else pm)
      | None \<Rightarrow> pm)"

definition update_portfolio_statistics ::
  "string \<Rightarrow> double \<Rightarrow> double \<Rightarrow> double \<Rightarrow> PositionManager \<Rightarrow> PositionManager" where
  "update_portfolio_statistics symbol old_position_value new_position_value realized_pnl_change pm =
     (let market_value_change = new_position_value - old_position_value;
          st = portfolio_stats pm;
          st1 = (if \<bar>market_value_change\<bar> > 1 / 10 ^ 8
                 then st\<lparr>total_market_value := total_market_value st + market_value_change\<rparr>
                 else st);
          st2 = (if \<bar>realized_pnl_change\<bar> > 1 / 10 ^ 8
                 then st1\<lparr>total_realized_pnl := total_realized_pnl st1 + realized_pnl_change\<rparr>
                 else st1)
      in pm\<lparr>portfolio_stats := st2, equity_cache_valid := False\<rparr>)"

text \<open>The three branches that keep the position counters, in the source's order.\<close>

definition update_position_counts ::
  "string \<Rightarrow> bool \<Rightarrow> bool \<Rightarrow> bool \<Rightarrow> bool \<Rightarrow> bool \<Rightarrow> bool \<Rightarrow> PositionManager \<Rightarrow> PositionManager" where
  "update_position_counts symbol position_existed was_long was_short is_now_long is_now_short
       is_now_flat pm =
     (let st = portfolio_stats pm in
      if \<not> position_existed \<and> \<not> is_now_flat then
        (let st1 = st\<lparr>total_positions := total_positions st + 1\<rparr>;
             st2 = (if is_now_long then st1\<lparr>long_positions := long_positions st1 + 1\<rparr>
                    else if is_now_short then st1\<lparr>short_positions := short_positions st1 + 1\<rparr>
                    else st1)
         in pm\<lparr>portfolio_stats := st2\<rparr>)
      else if position_existed \<and> is_now_flat then
        (let st1 = st\<lparr>total_positions := total_positions st - 1\<rparr>;
             st2 = (if was_long then st1\<lparr>long_positions := long_positions st1 - 1\<rparr>
                    else if was_short then st1\<lparr>short_positions := short_positions st1 - 1\<rparr>
                    else st1)
         in remove_flat_position symbol (pm\<lparr>portfolio_stats := st2\<rparr>))
      else if position_existed then
        (if was_long \<and> is_now_short
         then pm\<lparr>portfolio_stats := st\<lparr>long_positions := long_positions st - 1,
                                         short_positions := short_positions st + 1\<rparr>\<rparr>
         else if was_short \<and> is_now_long
         then pm\<lparr>portfolio_stats := st\<lparr>short_positions := short_positions st - 1,
                                         long_positions := long_positions st + 1\<rparr>\<rparr>
         else pm)
      else pm)"

text \<open>
  The last two blocks of \<open>update_position_on_fill_lockfree\<close>, under its comments
  ``Update P&L statistics'' and ``Update total equity'', as functions of their own.
\<close>

definition update_pnl_statistics :: "double \<Rightarrow> double \<Rightarrow> PositionManager \<Rightarrow> PositionManager" where
  "update_pnl_statistics unrealized_pnl_change realized_pnl_change pm =
     (let st = portfolio_stats pm;
          st1 = (if \<bar>unrealized_pnl_change\<bar> > 1 / 10 ^ 8
                 then st\<lparr>total_unrealized_pnl := total_unrealized_pnl st + unrealized_pnl_change\<rparr>
                 else st);
          st2 = (if \<bar>realized_pnl_change\<bar> > 1 / 10 ^ 8
                 then st1\<lparr>total_realized_pnl := total_realized_pnl st1 + realized_pnl_change\<rparr>
                 else st1)
      in pm\<lparr>portfolio_stats := st2\<rparr>)"

definition update_total_equity :: "double \<Rightarrow> PositionManager \<Rightarrow> PositionManager" where
  "update_total_equity market_value_change pm =
     (if \<bar>market_value_change\<bar> > 1 / 10 ^ 8
      then pm\<lparr>portfolio_stats :=
                 (portfolio_stats pm)\<lparr>total_equity :=
                    total_equity (portfolio_stats pm) + market_value_change\<rparr>,
               equity_cache_valid := False\<rparr>
      else pm)"

definition update_position_on_fill_lockfree ::
  "TradeExecutionEvent \<Rightarrow> PositionManager \<Rightarrow> PositionManager" where
  "update_position_on_fill_lockfree event pm =
     (let direction = (if te_is_buy event then 1 else - 1);
          trade_quantity = te_quantity event * direction;
          found = map_of (positions pm) (te_symbol event);
          position_existed = (found \<noteq> None);
          old_market_value = (case found of None \<Rightarrow> 0 | Some p \<Rightarrow> get_market_value p);
          old_unrealized_pnl = (case found of None \<Rightarrow> 0 | Some p \<Rightarrow> unrealized_pnl p);
          old_realized_pnl = (case found of None \<Rightarrow> 0 | Some p \<Rightarrow> realized_pnl p);
          was_long = (case found of None \<Rightarrow> False | Some p \<Rightarrow> is_long p);
          was_short = (case found of None \<Rightarrow> False | Some p \<Rightarrow> is_short p);
          (position0, pm1) = get_or_create_position (te_symbol event) pm;
          (realized_pnl_from_trade, position) =
             adjust_position trade_quantity (te_price event) position0;
          pm2 = pm1\<lparr>positions := AList.update (te_symbol event) position (positions pm1)\<rparr>;
          new_market_value = get_market_value position;
          new_unrealized_pnl = unrealized_pnl position;
          new_realized_pnl = realized_pnl position;
          pm3 = update_portfolio_statistics (te_symbol event) old_market_value new_market_value
                  realized_pnl_from_trade pm2;
          pm4 = update_position_counts (te_symbol event) position_existed was_long was_short
                  (is_long position) (is_short position) (is_flat position) pm3;
          pm5 = update_pnl_statistics (new_unrealized_pnl - old_unrealized_pnl)
                  (new_realized_pnl - old_realized_pnl) pm4
      in update_total_equity (new_market_value - old_market_value) pm5)"

definition on_trade_execution :: "TradeExecutionEvent \<Rightarrow> PositionManager \<Rightarrow> PositionManager" where
  "on_trade_execution event pm =
     (let pm1 = pm\<lparr>trade_history := trade_history pm @ [event]\<rparr>;
          direction = (if te_is_buy event then - 1 else 1);
          trade_value = te_quantity event * te_price event;
          cash_change = direction * trade_value - te_commission event;
          st = portfolio_stats pm1;
          pm2 = pm1\<lparr>portfolio_stats := st\<lparr>available_cash := available_cash st + cash_change\<rparr>\<rparr>
      in update_position_on_fill_lockfree event pm2)"

text \<open>
  \<open>recalculate_portfolio_totals\<close> rebuilds every aggregate from the positions; the loop
  over the map is a fold over the entries that are not flat.
\<close>

definition recalculate_portfolio_totals :: "PositionManager \<Rightarrow> PositionManager" where
  "recalculate_portfolio_totals pm =
     (let open_positions = filter (\<lambda>p. \<not> is_flat p) (map snd (positions pm));
          tmv = sum_list (map get_market_value open_positions);
          tup = sum_list (map unrealized_pnl open_positions);
          trp = sum_list (map realized_pnl open_positions);
          st = portfolio_stats pm;
          te = available_cash st + tmv
      in pm\<lparr>portfolio_stats :=
               st\<lparr>total_market_value := tmv, total_unrealized_pnl := tup,
                  total_realized_pnl := trp, total_pnl := trp + tup,
                  total_positions := of_nat (length open_positions),
                  long_positions := of_nat (length (filter is_long open_positions)),
                  short_positions := of_nat (length (filter is_short open_positions)),
                  total_equity := te\<rparr>,
             cached_total_equity := te, equity_cache_valid := True\<rparr>)"

text \<open>The sum of the market values of all positions of the ledger.\<close>

definition positions_market_value :: "PositionManager \<Rightarrow> double" where
  "positions_market_value pm = sum_list (map (\<lambda>kv. get_market_value (snd kv)) (positions pm))"

text \<open>
  A run of the ledger: market bars (\<open>on_market_data\<close>, the spec's \<open>on_bar\<close>) and fills
  (\<open>on_trade_execution\<close>, the spec's \<open>apply_fill\<close>) applied from left to right.
\<close>

datatype ledger_op = Bar MarketDataEvent | Fill TradeExecutionEvent

fun apply_ledger_op :: "ledger_op \<Rightarrow> PositionManager \<Rightarrow> PositionManager" where
  "apply_ledger_op (Bar e) pm = on_market_data e pm"
| "apply_ledger_op (Fill e) pm = on_trade_execution e pm"

definition run_ledger :: "ledger_op list \<Rightarrow> PositionManager \<Rightarrow> PositionManager" where
  "run_ledger ops pm = fold apply_ledger_op ops pm"

text \<open>
  The events of the spec's scenarios 2 and 3 and of \<open>test_position_manager.cpp\<close>: buy
  100 at 150 with commission 5, a bar closing at 155, sell 100 at 160 with commission 5.
\<close>

definition scenario_buy :: TradeExecutionEvent where
  "scenario_buy = \<lparr>te_symbol = ''AAPL'', te_quantity = 100, te_price = 150,
                    te_commission = 5, te_is_buy = True\<rparr>"

definition scenario_bar :: MarketDataEvent where
  "scenario_bar = \<lparr>md_symbol = ''AAPL'', md_open = 155, md_high = 155, md_low = 155,
                    md_close = 155, md_volume = 0\<rparr>"

definition scenario_sell :: TradeExecutionEvent where
  "scenario_sell = \<lparr>te_symbol = ''AAPL'', te_quantity = 100, te_price = 160,
                     te_commission = 5, te_is_buy = False\<rparr>"

definition scenario_buy_more :: TradeExecutionEvent where
  "scenario_buy_more = \<lparr>te_symbol = ''AAPL'', te_quantity = 100, te_price = 160,
                         te_commission = 5, te_is_buy = True\<rparr>"

definition other_symbol_buy :: TradeExecutionEvent where
  "other_symbol_buy = \<lparr>te_symbol = ''MSFT'', te_quantity = 10, te_price = 300,
                        te_commission = 1, te_is_buy = True\<rparr>"

definition other_symbol_bar :: MarketDataEvent where
  "other_symbol_bar = \<lparr>md_symbol = ''MSFT'', md_open = 310, md_high = 310, md_low = 310,
                        md_close = 310, md_volume = 0\<rparr>"

text \<open>
  Whether an operation is a bar or a fill for the symbol, and whether it is a bar for it.
\<close>

fun touches :: "string \<Rightarrow> ledger_op \<Rightarrow> bool" where
  "touches sy (Bar e) = (md_symbol e = sy)"
| "touches sy (Fill e) = (te_symbol e = sy)"

fun is_bar_for :: "string \<Rightarrow> ledger_op \<Rightarrow> bool" where
  "is_bar_for sy (Bar e) = (md_symbol e = sy)"
| "is_bar_for sy (Fill e) = False"

text \<open>The symbol has no position, or one whose mark price is still 0.\<close>

definition unmarked :: "string \<Rightarrow> PositionManager \<Rightarrow> bool" where
  "unmarked sy pm =
     (case map_of (positions pm) sy of None \<Rightarrow> True | Some p \<Rightarrow> current_price p = 0)"

section \<open>Orders and price levels (execution/price\_level.h)\<close>

datatype Side = BUY | SELL

datatype Status = ACTIVE | PARTIALLY_FILLED | FULLY_FILLED | CANCELLED

text \<open>
  \<open>quantity\<close> is the remaining quantity. The two clock fields (\<open>created_time\<close> and
  \<open>priority\<close>) are written once from the system clock and never read by the matching
  code; they are left out. The \<open>next\<close> pointer is the tail of the list that holds
  the chain.
\<close>

record Order =
  order_id :: "64 word"
  order_symbol :: string
  side :: Side
  price :: double
  quantity :: double
  original_quantity :: double
  status :: Status

definition new_Order :: "64 word \<Rightarrow> string \<Rightarrow> Side \<Rightarrow> double \<Rightarrow> double \<Rightarrow> Order" where
  "new_Order oid sy s p q =
     \<lparr>order_id = oid, order_symbol = sy, side = s, price = p, quantity = q,
      original_quantity = q, status = ACTIVE\<rparr>"

text \<open>
  \<open>try_fill\<close>: the compare-and-swap on the quantity succeeds in the first round of the
  loop, and the one on the status finds the status it has just loaded.
\<close>

definition try_fill :: "double \<Rightarrow> Order \<Rightarrow> double \<times> Order" where
  "try_fill fill_quantity ord =
     (let current_qty = quantity ord in
      if current_qty > 0 \<and> fill_quantity > 0
      then (let actual_fill = min current_qty fill_quantity;
                new_qty = current_qty - actual_fill;
                new_status = (if new_qty = 0 then FULLY_FILLED else PARTIALLY_FILLED)
            in (actual_fill, ord\<lparr>quantity := new_qty, status := new_status\<rparr>))
      else (0, ord))"

definition is_active :: "Order \<Rightarrow> bool" where
  "is_active ord =
     ((status ord = ACTIVE \<or> status ord = PARTIALLY_FILLED) \<and> quantity ord > 0)"

definition get_remaining_quantity :: "Order \<Rightarrow> double" where
  "get_remaining_quantity ord = quantity ord"

text \<open>
  A price level: \<open>chain\<close> is the linked list that starts at \<open>head_\<close>, first element
  first.
\<close>

record PriceLevel =
  level_price :: double
  level_total_quantity :: double
  order_count :: size_t
  chain :: "Order list"

definition new_PriceLevel :: "double \<Rightarrow> PriceLevel" where
  "new_PriceLevel p = \<lparr>level_price = p, level_total_quantity = 0, order_count = 0, chain = []\<rparr>"

definition is_opposite_side :: "Side \<Rightarrow> Side \<Rightarrow> bool" where
  "is_opposite_side side1 side2 =
     ((side1 = BUY \<and> side2 = SELL) \<or> (side1 = SELL \<and> side2 = BUY))"

text \<open>\<open>PriceLevel::add_order\<close> links the order in at the head of the chain.\<close>

definition PriceLevel_add_order :: "Order \<Rightarrow> PriceLevel \<Rightarrow> bool \<times> PriceLevel" where
  "PriceLevel_add_order ord lv =
     (if \<bar>price ord - level_price lv\<bar> > 1 / 10 ^ 8 then (False, lv)
      else (True, lv\<lparr>chain := ord # chain lv,
                      level_total_quantity := level_total_quantity lv + get_remaining_quantity ord,
                      order_count := order_count lv + 1\<rparr>))"

text \<open>
  The loop of \<open>PriceLevel::match_orders\<close> over the chain, from the head: the arguments
  are the incoming side, \<open>total_matched\<close> and \<open>remaining_quantity\<close> so far, and the
  rest of the chain; the result is the final \<open>total_matched\<close> and the chain as the loop
  leaves it.
\<close>

fun match_chain :: "Side \<Rightarrow> double \<Rightarrow> double \<Rightarrow> Order list \<Rightarrow> double \<times> Order list" where
  "match_chain s total_matched remaining_quantity [] = (total_matched, [])"
| "match_chain s total_matched remaining_quantity (current # rest) =
     (if remaining_quantity > 0 then
        (if is_opposite_side (side current) s \<and> is_active current then
           (let (matched, current') = try_fill remaining_quantity current in
            if matched > 0
            then (let (t, rest') = match_chain s (total_matched + matched)
                                     (remaining_quantity - matched) rest
                  in (t, current' # rest'))
            else (let (t, rest') = match_chain s total_matched remaining_quantity rest
                  in (t, current' # rest')))
         else (let (t, rest') = match_chain s total_matched remaining_quantity rest
               in (t, current # rest')))
      else (total_matched, current # rest))"

definition PriceLevel_match_orders ::
  "Side \<Rightarrow> double \<Rightarrow> double \<Rightarrow> double \<Rightarrow> PriceLevel \<Rightarrow> double \<times> PriceLevel" where
  "PriceLevel_match_orders s qty max_price min_price lv =
     (if s = BUY \<and> max_price > 0 \<and> level_price lv > max_price then (0, lv)
      else if s = SELL \<and> min_price > 0 \<and> level_price lv < min_price then (0, lv)
      else (let (total_matched, chain') = match_chain s 0 qty (chain lv)
            in (total_matched,
                lv\<lparr>chain := chain',
                   level_total_quantity := level_total_quantity lv - total_matched\<rparr>)))"

text \<open>
  The loop of \<open>PriceLevel::remove_order\<close>: the first order of the chain with the id is
  marked cancelled, whatever its status; the result is its remaining quantity, or
  \<open>None\<close> when no order has the id.
\<close>

fun cancel_in_chain :: "64 word \<Rightarrow> Order list \<Rightarrow> double option \<times> Order list" where
  "cancel_in_chain oid [] = (None, [])"
| "cancel_in_chain oid (current # rest) =
     (if order_id current = oid
      then (Some (get_remaining_quantity current), current\<lparr>status := CANCELLED\<rparr> # rest)
      else (let (r, rest') = cancel_in_chain oid rest in (r, current # rest')))"

definition PriceLevel_remove_order :: "64 word \<Rightarrow> PriceLevel \<Rightarrow> bool \<times> PriceLevel" where
  "PriceLevel_remove_order oid lv =
     (case cancel_in_chain oid (chain lv) of
        (None, _) \<Rightarrow> (False, lv)
      | (Some removed_quantity, chain') \<Rightarrow>
          (True, lv\<lparr>chain := chain',
                   level_total_quantity := level_total_quantity lv - removed_quantity,
                   order_count := order_count lv - 1\<rparr>))"

definition has_orders :: "PriceLevel \<Rightarrow> bool" where
  "has_orders lv = (order_count lv > 0 \<and> level_total_quantity lv > 0)"

section \<open>Order book (execution/lock\_free\_order\_book.h, lock\_free\_order\_book.cpp)\<close>

record OrderBookConfig =
  cfg_symbol :: string
  tick_size :: double
  max_price_levels :: size_t
  market_depth_levels :: size_t
  enable_statistics :: bool
  auto_cleanup :: bool

text \<open>The defaults of \<open>LockFreeOrderBook::Config\<close> for a symbol, and \<open>validate\<close>.\<close>

definition default_OrderBookConfig :: "string \<Rightarrow> OrderBookConfig" where
  "default_OrderBookConfig sy =
     \<lparr>cfg_symbol = sy, tick_size = 1 / 100, max_price_levels = 10000,
      market_depth_levels = 5, enable_statistics = False, auto_cleanup = True\<rparr>"

definition OrderBookConfig_validate :: "OrderBookConfig \<Rightarrow> OrderBookConfig" where
  "OrderBookConfig_validate c =
     (let c1 = (if tick_size c \<le> 0 then c\<lparr>tick_size := 1 / 100\<rparr> else c);
          c2 = (if max_price_levels c1 = 0 then c1\<lparr>max_price_levels := 10000\<rparr> else c1)
      in if market_depth_levels c2 = 0 then c2\<lparr>market_depth_levels := 5\<rparr> else c2)"

text \<open>
  The counters of \<open>Statistics\<close>. The three timing fields are fed from the clock by
  \<open>update_statistics\<close> and are left out.
\<close>

record Statistics =
  total_orders_added :: "64 word"
  total_orders_matched :: "64 word"
  total_orders_cancelled :: "64 word"
  total_matches :: "64 word"
  total_volume_matched :: double
  total_value_matched :: double
  active_price_levels :: size_t
  total_active_orders :: size_t
  total_bid_quantity :: double
  total_ask_quantity :: double

record MatchResult =
  matched_quantity :: double
  average_price :: double
  orders_matched :: size_t
  matched_order_ids :: "64 word list"
  fully_filled :: bool

definition new_MatchResult :: MatchResult where
  "new_MatchResult = \<lparr>matched_quantity = 0, average_price = 0, orders_matched = 0,
                        matched_order_ids = [], fully_filled = False\<rparr>"

text \<open>
  The two \<open>std::map\<close> ladders are association lists in iteration order: \<open>bid_levels\<close>
  descending (\<open>std::greater\<close>), \<open>ask_levels\<close> ascending (\<open>std::less\<close>).
  \<open>order_lookup\<close> maps an order id to the side and price of \<open>OrderInfo\<close>.
\<close>

record LockFreeOrderBook =
  config :: OrderBookConfig
  bid_levels :: "(double \<times> PriceLevel) list"
  ask_levels :: "(double \<times> PriceLevel) list"
  order_lookup :: "(64 word \<times> Side \<times> double) list"
  cached_best_bid :: double
  cached_best_ask :: double
  cache_valid :: bool
  statistics :: Statistics
  next_order_id :: "64 word"

text \<open>
  The constructor: the validated configuration, empty ladders and the member
  initialisers of the header, among them \<open>next_order_id_{1}\<close>.
\<close>

definition new_LockFreeOrderBook :: "OrderBookConfig \<Rightarrow> LockFreeOrderBook" where
  "new_LockFreeOrderBook c =
     \<lparr>config = OrderBookConfig_validate c, bid_levels = [], ask_levels = [],
      order_lookup = [], cached_best_bid = 0, cached_best_ask = 0, cache_valid = False,
      statistics = \<lparr>total_orders_added = 0, total_orders_matched = 0,
                     total_orders_cancelled = 0, total_matches = 0,
                     total_volume_matched = 0, total_value_matched = 0,
                     active_price_levels = 0, total_active_orders = 0,
                     total_bid_quantity = 0, total_ask_quantity = 0\<rparr>,
      next_order_id = 1\<rparr>"

text \<open>\<open>std::round\<close> rounds halfway cases away from zero.\<close>

definition cpp_round :: "double \<Rightarrow> double" where
  "cpp_round x = (if x \<ge> 0 then of_int \<lfloor>x + 1 / 2\<rfloor> else - of_int \<lfloor>- x + 1 / 2\<rfloor>)"

text \<open>
  \<open>round_to_tick\<close>, in exact arithmetic: the nearest multiple of the tick, the upper
  one (in absolute value) when the price is half-way between two. A price that is a
  multiple of the tick is its own result. The source divides, rounds and multiplies in
  binary floating point, where the quotient of a price written as half-way, such as
  1.005 for the tick 0.01, can fall below the half and round down: for such prices the
  result here is not the one of the source.
\<close>

definition round_to_tick :: "LockFreeOrderBook \<Rightarrow> double \<Rightarrow> double" where
  "round_to_tick book p = cpp_round (p / tick_size (config book)) * tick_size (config book)"

text \<open>
  \<open>levels[price]\<close> of a \<open>std::map\<close>: the entry with the key, created in its place of
  the order \<open>precedes\<close> when the map has none. The result says whether it was created.
\<close>

fun level_entry :: "(double \<Rightarrow> double \<Rightarrow> bool) \<Rightarrow> double \<Rightarrow> (double \<times> PriceLevel) list
    \<Rightarrow> bool \<times> (double \<times> PriceLevel) list" where
  "level_entry precedes k [] = (True, [(k, new_PriceLevel k)])"
| "level_entry precedes k ((k', lv) # rest) =
     (if k = k' then (False, (k', lv) # rest)
      else if precedes k k' then (True, (k, new_PriceLevel k) # (k', lv) # rest)
      else (let (created, rest') = level_entry precedes k rest in (created, (k', lv) # rest')))"

definition get_or_create_price_level :: "Side \<Rightarrow> double \<Rightarrow> LockFreeOrderBook \<Rightarrow> LockFreeOrderBook" where
  "get_or_create_price_level s p book =
     (let st = statistics book in
      if s = BUY
      then (let (created, levels) = level_entry (\<lambda>a b. a > b) p (bid_levels book);
                book1 = book\<lparr>bid_levels := levels\<rparr>
            in if created
               then book1\<lparr>statistics := st\<lparr>active_price_levels := active_price_levels st + 1\<rparr>\<rparr>
               else book1)
      else (let (created, levels) = level_entry (\<lambda>a b. a < b) p (ask_levels book);
                book1 = book\<lparr>ask_levels := levels\<rparr>
            in if created
               then book1\<lparr>statistics := st\<lparr>active_price_levels := active_price_levels st + 1\<rparr>\<rparr>
               else book1))"

text \<open>
  \<open>LockFreeOrderBook::add_order\<close>. The level is the one \<open>get_or_create_price_level\<close>
  has just returned, so the lookup finds it; \<open>level->add_order\<close> is applied to that entry.
\<close>

definition add_order :: "64 word \<Rightarrow> Side \<Rightarrow> double \<Rightarrow> double \<Rightarrow> LockFreeOrderBook
    \<Rightarrow> bool \<times> LockFreeOrderBook" where
  "add_order oid s p qty book =
     (if qty \<le> 0 \<or> p \<le> 0 then (False, book)
      else
        (let rounded_price = round_to_tick book p;
             book1 = get_or_create_price_level s rounded_price book;
             levels = (if s = BUY then bid_levels book1 else ask_levels book1);
             ord = new_Order oid (cfg_symbol (config book1)) s rounded_price qty
         in case map_of levels rounded_price of
              None \<Rightarrow> (False, book1)
            | Some lv \<Rightarrow>
               (case PriceLevel_add_order ord lv of
                  (False, _) \<Rightarrow> (False, book1)
                | (True, lv') \<Rightarrow>
                   (let levels' = AList.update rounded_price lv' levels;
                        book2 = (if s = BUY then book1\<lparr>bid_levels := levels'\<rparr>
                                 else book1\<lparr>ask_levels := levels'\<rparr>);
                        book3 = book2\<lparr>order_lookup :=
                                   AList.update oid (s, rounded_price) (order_lookup book2),
                                 cache_valid := False\<rparr>;
                        st = statistics book3
                    in if enable_statistics (config book3)
                       then (True, book3\<lparr>statistics :=
                               (if s = BUY
                                then st\<lparr>total_orders_added := total_orders_added st + 1,
                                        total_active_orders := total_active_orders st + 1,
                                        total_bid_quantity := total_bid_quantity st + qty\<rparr>
                                else st\<lparr>total_orders_added := total_orders_added st + 1,
                                        total_active_orders := total_active_orders st + 1,
                                        total_ask_quantity := total_ask_quantity st + qty\<rparr>)\<rparr>)
                       else (True, book3)))))"

text \<open>
  The loop of \<open>match_market_order\<close> over one ladder, in iteration order. The state of
  the loop is the matched quantity, the total value, the remaining quantity and
  \<open>orders_matched\<close>; the result is that state and the ladder after the loop.
\<close>

fun match_levels :: "Side \<Rightarrow> double \<Rightarrow> double \<Rightarrow> double \<times> double \<times> double \<times> size_t
    \<Rightarrow> (double \<times> PriceLevel) list
    \<Rightarrow> (double \<times> double \<times> double \<times> size_t) \<times> (double \<times> PriceLevel) list" where
  "match_levels s max_price min_price acc [] = (acc, [])"
| "match_levels s max_price min_price (matched_q, total_value, remaining_quantity, n) ((p, lv) # rest) =
     (if remaining_quantity \<le> 0 then ((matched_q, total_value, remaining_quantity, n), (p, lv) # rest)
      else if (if s = BUY then max_price > 0 \<and> p > max_price else min_price > 0 \<and> p < min_price)
      then ((matched_q, total_value, remaining_quantity, n), (p, lv) # rest)
      else if has_orders lv then
        (let (matched, lv') = PriceLevel_match_orders s remaining_quantity max_price min_price lv in
         if matched > 0
         then (let (acc', rest') = match_levels s max_price min_price
                         (matched_q + matched, total_value + matched * p,
                          remaining_quantity - matched, n + 1) rest
               in (acc', (p, lv') # rest'))
         else (let (acc', rest') = match_levels s max_price min_price
                         (matched_q, total_value, remaining_quantity, n) rest
               in (acc', (p, lv') # rest')))
      else (let (acc', rest') = match_levels s max_price min_price
                      (matched_q, total_value, remaining_quantity, n) rest
            in (acc', (p, lv) # rest')))"

definition match_market_order :: "Side \<Rightarrow> double \<Rightarrow> double \<Rightarrow> double \<Rightarrow> LockFreeOrderBook
    \<Rightarrow> MatchResult \<times> LockFreeOrderBook" where
  "match_market_order s qty max_price min_price book =
     (let ((matched_q, total_value, remaining_quantity, n), levels) =
            match_levels s max_price min_price (0, 0, qty, 0)
              (if s = BUY then ask_levels book else bid_levels book);
          book1 = (if s = BUY then book\<lparr>ask_levels := levels\<rparr> else book\<lparr>bid_levels := levels\<rparr>);
          result0 = new_MatchResult\<lparr>matched_quantity := matched_q, orders_matched := n\<rparr>;
          result = (if matched_q > 0
                    then result0\<lparr>average_price := total_value / matched_q,
                                 fully_filled := (remaining_quantity \<le> 1 / 10 ^ 8)\<rparr>
                    else result0);
          book2 = (if matched_q > 0 then book1\<lparr>cache_valid := False\<rparr> else book1);
          st = statistics book2
      in if enable_statistics (config book2) \<and> matched_q > 0
         then (result, book2\<lparr>statistics :=
                  st\<lparr>total_matches := total_matches st + 1,
                     total_volume_matched := total_volume_matched st + matched_q,
                     total_value_matched := total_value_matched st + total_value,
                     total_orders_matched := total_orders_matched st + n\<rparr>\<rparr>)
         else (result, book2))"

definition cancel_order :: "64 word \<Rightarrow> LockFreeOrderBook \<Rightarrow> bool \<times> LockFreeOrderBook" where
  "cancel_order oid book =
     (case map_of (order_lookup book) oid of
        None \<Rightarrow> (False, book)
      | Some (s, p) \<Rightarrow>
         (let levels = (if s = BUY then bid_levels book else ask_levels book) in
          case map_of levels p of
            None \<Rightarrow> (False, book)
          | Some lv \<Rightarrow>
             (case PriceLevel_remove_order oid lv of
                (False, _) \<Rightarrow> (False, book)
              | (True, lv') \<Rightarrow>
                 (let levels' = AList.update p lv' levels;
                      book1 = (if s = BUY then book\<lparr>bid_levels := levels'\<rparr>
                               else book\<lparr>ask_levels := levels'\<rparr>);
                      book2 = book1\<lparr>order_lookup := AList.delete oid (order_lookup book1),
                                    cache_valid := False\<rparr>;
                      st = statistics book2
                  in if enable_statistics (config book2)
                     then (True, book2\<lparr>statistics :=
                             st\<lparr>total_orders_cancelled := total_orders_cancelled st + 1,
                                total_active_orders := total_active_orders st - 1\<rparr>\<rparr>)
                     else (True, book2)))))"

text \<open>The orders of a ladder with a given id, for reading an order's state.\<close>

definition find_orders :: "64 word \<Rightarrow> (double \<times> PriceLevel) list \<Rightarrow> Order list" where
  "find_orders oid levels =
     filter (\<lambda>ord. order_id ord = oid) (concat (map (\<lambda>kv. chain (snd kv)) levels))"

text \<open>
  The books of the scenarios: an empty book with the default configuration; the book of
  the spec's scenario 5, with order 1 (sell 30 at 100.00) and order 2 (sell 80 at
  100.01); a book with two sell orders at one price, order 1 added before order 2; and a
  book whose only order has been filled completely.
\<close>

definition empty_book :: LockFreeOrderBook where
  "empty_book = new_LockFreeOrderBook (default_OrderBookConfig ''AAPL'')"

definition scenario_book :: LockFreeOrderBook where
  "scenario_book =
     snd (add_order 2 SELL (10001 / 100) 80 (snd (add_order 1 SELL 100 30 empty_book)))"

definition same_price_book :: LockFreeOrderBook where
  "same_price_book = snd (add_order 2 SELL 100 80 (snd (add_order 1 SELL 100 30 empty_book)))"

definition filled_book :: LockFreeOrderBook where
  "filled_book = snd (match_market_order BUY 30 0 0 (snd (add_order 1 SELL 100 30 empty_book)))"

text \<open>The status and the remaining quantity of the orders of a ladder with an id.\<close>

definition order_states :: "64 word \<Rightarrow> (double \<times> PriceLevel) list \<Rightarrow> (Status \<times> double) list" where
  "order_states oid levels = map (\<lambda>ord. (status ord, quantity ord)) (find_orders oid levels)"

text \<open>
  What an order's fields satisfy at every moment: the remaining quantity never exceeds
  the original one, and a filled order has nothing remaining.
\<close>

definition order_invariant :: "Order \<Rightarrow> bool" where
  "order_invariant ord =
     (quantity ord \<le> original_quantity ord \<and>
      (if status ord = FULLY_FILLED then quantity ord = 0 else True))"

section \<open>Ring buffer (core/atomic\_sequence.h, core/disruptor\_queue.h)\<close>

text \<open>
  \<open>int64_t\<close> arithmetic: the mathematical result, wrapped into the signed 64-bit range.
\<close>

definition s64 :: "int \<Rightarrow> int" where
  "s64 x = (x + 2 ^ 63) mod 2 ^ 64 - 2 ^ 63"

text \<open>What a call can end in besides a result.\<close>

datatype failure =
    OutOfRange  \<comment> \<open>an index past the end of the slot vector (undefined behaviour in C++)\<close>
  | Diverges    \<comment> \<open>a loop that never ends\<close>

datatype WaitStrategyType = BUSY_SPIN | YIELDING | SLEEPING | BLOCKING

record DisruptorConfig =
  buffer_size :: size_t
  wait_strategy :: WaitStrategyType
  multi_producer :: bool
  multi_consumer :: bool

definition default_DisruptorConfig :: DisruptorConfig where
  "default_DisruptorConfig =
     \<lparr>buffer_size = 1024 * 1024, wait_strategy = YIELDING,
      multi_producer = True, multi_consumer = True\<rparr>"

text \<open>
  The loop of \<open>Config::validate\<close> that doubles \<open>next_power\<close> while it is below the
  buffer size. \<open>next_power <<= 1\<close> wraps to 0 after 64 doublings, and from there the
  loop never ends (for a size above \<open>2^63\<close>): the result is \<open>None\<close> then.
\<close>

partial_function (option) next_power_loop :: "size_t \<Rightarrow> size_t \<Rightarrow> size_t option" where
  "next_power_loop next_power bs =
     (if next_power < bs then next_power_loop (push_bit 1 next_power) bs else Some next_power)"

definition DisruptorConfig_validate :: "DisruptorConfig \<Rightarrow> DisruptorConfig option" where
  "DisruptorConfig_validate c =
     (let minimum = (\<lambda>c'. if buffer_size c' < 2 then c'\<lparr>buffer_size := 2\<rparr> else c') in
      if buffer_size c AND (buffer_size c - 1) \<noteq> 0
      then (case next_power_loop 1 (buffer_size c) of
              None \<Rightarrow> None
            | Some next_power \<Rightarrow> Some (minimum (c\<lparr>buffer_size := next_power\<rparr>)))
      else Some (minimum c))"

text \<open>
  A queue of \<open>T\<close> with \<open>T\<close> a pointer type: a slot holds \<open>None\<close> for \<open>nullptr\<close>.
  \<open>cursor\<close> is the producer sequence, \<open>consumer_sequence\<close> the consumer's; the barrier
  has no dependency sequences, so it reads the cursor alone.
\<close>

record 'a DisruptorQueue =
  dq_config :: DisruptorConfig
  buffer_mask :: size_t
  buffer :: "'a option list"
  cursor :: int
  consumer_sequence :: int

text \<open>
  The constructor. The member initialisers run first, in the order of the declarations:
  \<open>config_\<close> is the caller's configuration, \<open>buffer_mask_\<close> and \<open>buffer_\<close> are
  computed from its \<open>buffer_size\<close>; the body then calls \<open>config_.validate()\<close>.
\<close>

definition new_DisruptorQueue :: "DisruptorConfig \<Rightarrow> 'a DisruptorQueue option" where
  "new_DisruptorQueue c =
     (let mask = buffer_size c - 1;
          slots = replicate (unat (buffer_size c)) None
      in case DisruptorConfig_validate c of
           None \<Rightarrow> None
         | Some c' \<Rightarrow>
             Some \<lparr>dq_config = c', buffer_mask = mask, buffer = slots,
                   cursor = - 1, consumer_sequence = - 1\<rparr>)"

definition capacity :: "'a DisruptorQueue \<Rightarrow> size_t" where
  "capacity q = buffer_size (dq_config q)"

text \<open>\<open>static_cast<size_t>(sequence) & buffer_mask_\<close>.\<close>

definition slot_index :: "'a DisruptorQueue \<Rightarrow> int \<Rightarrow> nat" where
  "slot_index q sequence = unat ((word_of_int sequence :: size_t) AND buffer_mask q)"

text \<open>
  \<open>claim_next_sequence\<close>: the compare-and-swap on the cursor succeeds, so the recursive
  retry is not taken. The result is the claimed sequence, or \<open>- 1\<close> when the buffer is
  full.
\<close>

definition claim_next_sequence :: "'a DisruptorQueue \<Rightarrow> int \<times> 'a DisruptorQueue" where
  "claim_next_sequence q =
     (let current_sequence = cursor q;
          next_sequence = s64 (current_sequence + 1);
          wrap_point = s64 (next_sequence - s64 (uint (buffer_size (dq_config q))));
          cached_consumer_sequence = consumer_sequence q
      in if wrap_point > cached_consumer_sequence \<and> wrap_point > consumer_sequence q
         then (- 1, q)
         else (next_sequence, q\<lparr>cursor := next_sequence\<rparr>))"

definition store_slot :: "int \<Rightarrow> 'a option \<Rightarrow> 'a DisruptorQueue \<Rightarrow> failure + 'a DisruptorQueue" where
  "store_slot sequence event q =
     (let index = slot_index q sequence in
      if index < length (buffer q) then Inr (q\<lparr>buffer := (buffer q)[index := event]\<rparr>)
      else Inl OutOfRange)"

definition try_publish :: "'a option \<Rightarrow> 'a DisruptorQueue \<Rightarrow> failure + (bool \<times> 'a DisruptorQueue)" where
  "try_publish event q =
     (let (next_sequence, q1) = claim_next_sequence q in
      if next_sequence < 0 then Inr (False, q1)
      else (case store_slot next_sequence event q1 of
              Inl f \<Rightarrow> Inl f
            | Inr q2 \<Rightarrow> Inr (True, q2)))"

text \<open>
  The blocking \<open>publish\<close> retries the claim until it succeeds. With no other call
  running in between, a full buffer stays full and the loop does not end.
\<close>

definition publish :: "'a option \<Rightarrow> 'a DisruptorQueue \<Rightarrow> failure + 'a DisruptorQueue" where
  "publish event q =
     (let (next_sequence, q1) = claim_next_sequence q in
      if next_sequence < 0 then Inl Diverges
      else store_slot next_sequence event q1)"

definition try_wait_for :: "'a DisruptorQueue \<Rightarrow> int \<Rightarrow> int" where
  "try_wait_for q sequence =
     (let available_sequence = cursor q in
      if available_sequence < sequence then - 1 else available_sequence)"

definition try_consume :: "'a DisruptorQueue \<Rightarrow> failure + ('a option \<times> 'a DisruptorQueue)" where
  "try_consume q =
     (let next_consume_sequence = s64 (consumer_sequence q + 1);
          available_sequence = try_wait_for q next_consume_sequence
      in if available_sequence < next_consume_sequence then Inr (None, q)
         else (let index = slot_index q next_consume_sequence in
               if index < length (buffer q)
               then Inr (buffer q ! index,
                         q\<lparr>buffer := (buffer q)[index := None],
                           consumer_sequence := next_consume_sequence\<rparr>)
               else Inl OutOfRange))"

text \<open>
  One producer thread and one consumer thread. A call \<open>try_publish(event)\<close> of the
  producer is two steps on the shared queue: \<open>claim_next_sequence\<close>, whose
  compare-and-swap moves the cursor, and the store into the slot
  (\<open>publish_sequence\<close> after it is a fence and writes nothing). In
  \<open>try_publish_overtaken\<close> the consumer thread runs one call of \<open>try_consume\<close>
  between the two steps. The result is what the producer's call returns, what the
  consumer's call returns, and the queue.
\<close>

definition try_publish_overtaken ::
  "'a option \<Rightarrow> 'a DisruptorQueue \<Rightarrow> failure + (bool \<times> 'a option \<times> 'a DisruptorQueue)" where
  "try_publish_overtaken event q =
     (let (next_sequence, q1) = claim_next_sequence q in
      if next_sequence < 0 then Inr (False, None, q1)
      else (case try_consume q1 of
              Inl f \<Rightarrow> Inl f
            | Inr (seen, q2) \<Rightarrow>
                (case store_slot next_sequence event q2 of
                   Inl f \<Rightarrow> Inl f
                 | Inr q3 \<Rightarrow> Inr (True, seen, q3))))"

text \<open>
  A schedule of calls on one queue, one after the other, and what each call returned.
\<close>

datatype 'a queue_op = Publish "'a option" | Consume

datatype 'a queue_result = Published bool | Consumed "'a option"

fun run_queue :: "'a queue_op list \<Rightarrow> 'a DisruptorQueue
    \<Rightarrow> failure + ('a queue_result list \<times> 'a DisruptorQueue)" where
  "run_queue [] q = Inr ([], q)"
| "run_queue (Publish e # ops) q =
     (case try_publish e q of
        Inl f \<Rightarrow> Inl f
      | Inr (ok, q') \<Rightarrow>
          (case run_queue ops q' of
             Inl f \<Rightarrow> Inl f
           | Inr (rs, q'') \<Rightarrow> Inr (Published ok # rs, q'')))"
| "run_queue (Consume # ops) q =
     (case try_consume q of
        Inl f \<Rightarrow> Inl f
      | Inr (e, q') \<Rightarrow>
          (case run_queue ops q' of
             Inl f \<Rightarrow> Inl f
           | Inr (rs, q'') \<Rightarrow> Inr (Consumed e # rs, q'')))"

text \<open>
  The events a schedule published successfully, and the events its consumes returned,
  both in the order of the calls.
\<close>

fun published_events :: "'a queue_op list \<Rightarrow> 'a queue_result list \<Rightarrow> 'a list" where
  "published_events (Publish (Some e) # ops) (Published True # rs) = e # published_events ops rs"
| "published_events (_ # ops) (_ # rs) = published_events ops rs"
| "published_events _ _ = []"

fun consumed_events :: "'a queue_result list \<Rightarrow> 'a list" where
  "consumed_events [] = []"
| "consumed_events (Consumed (Some e) # rs) = e # consumed_events rs"
| "consumed_events (_ # rs) = consumed_events rs"

fun publishes_nonnull :: "'a queue_op list \<Rightarrow> bool" where
  "publishes_nonnull [] = True"
| "publishes_nonnull (Publish e # ops) = (e \<noteq> None \<and> publishes_nonnull ops)"
| "publishes_nonnull (Consume # ops) = publishes_nonnull ops"

text \<open>
  The consumer keeps pace with a schedule when no publish is called with \<open>cap\<close> events
  published and not yet consumed; \<open>n\<close> counts the events outstanding.
\<close>

fun keeps_pace :: "nat \<Rightarrow> nat \<Rightarrow> 'a queue_op list \<Rightarrow> bool" where
  "keeps_pace cap n [] = True"
| "keeps_pace cap n (Publish e # ops) = (n < cap \<and> keeps_pace cap (Suc n) ops)"
| "keeps_pace cap n (Consume # ops) = keeps_pace cap (n - 1) ops"

text \<open>The stress schedule: event \<open>i\<close> is published and then consumed, for \<open>i < n\<close>.\<close>

definition stress_schedule :: "nat \<Rightarrow> nat queue_op list" where
  "stress_schedule n = concat (map (\<lambda>i. [Publish (Some i), Consume]) [0..<n])"

text \<open>
  The state a correctly sized queue is in between two calls: the capacity is \<open>2 ^ k\<close>,
  mask and slot vector agree with it, and the consumer is at most one lap behind the
  cursor.
\<close>

definition valid_queue :: "nat \<Rightarrow> 'a DisruptorQueue \<Rightarrow> bool" where
  "valid_queue k q =
     (1 \<le> k \<and> k \<le> 62 \<and> buffer_size (dq_config q) = 2 ^ k \<and> buffer_mask q = 2 ^ k - 1 \<and>
      length (buffer q) = 2 ^ k \<and> - 1 \<le> consumer_sequence q \<and>
      consumer_sequence q \<le> cursor q \<and> cursor q - consumer_sequence q \<le> 2 ^ k)"

text \<open>
  The slots of the sequences the consumer has not reached yet, oldest first.
\<close>

definition pending :: "nat \<Rightarrow> 'a DisruptorQueue \<Rightarrow> 'a option list" where
  "pending k q =
     map (\<lambda>i. buffer q ! ((nat (consumer_sequence q + 1) + i) mod 2 ^ k))
       [0..<nat (cursor q - consumer_sequence q)]"

text \<open>
  What the spec asks of the bus, in its words: a first-in first-out queue bounded by the
  capacity. \<open>try_publish\<close> appends unless the queue holds \<open>cap\<close> events,
  \<open>try_consume\<close> removes the oldest event or returns nothing. This is the definition
  the ring buffer is compared with; it is not taken from the code.
\<close>

fun fifo_spec :: "nat \<Rightarrow> 'a queue_op list \<Rightarrow> 'a option list
    \<Rightarrow> 'a queue_result list \<times> 'a option list" where
  "fifo_spec cap [] pend = ([], pend)"
| "fifo_spec cap (Publish e # ops) pend =
     (if length pend < cap
      then (let (rs, pend') = fifo_spec cap ops (pend @ [e]) in (Published True # rs, pend'))
      else (let (rs, pend') = fifo_spec cap ops pend in (Published False # rs, pend')))"
| "fifo_spec cap (Consume # ops) pend =
     (case pend of
        [] \<Rightarrow> (let (rs, pend') = fifo_spec cap ops [] in (Consumed None # rs, pend'))
      | x # xs \<Rightarrow> (let (rs, pend') = fifo_spec cap ops xs in (Consumed x # rs, pend')))"

definition publish_count :: "'a queue_result list \<Rightarrow> nat" where
  "publish_count rs = length (filter (\<lambda>r. r = Published True) rs)"

text \<open>
  The results of the stress schedule, and the configurations of the scenarios: capacity
  1024 for the stress run, capacity 2 and a short schedule, and the requested size 3,
  which is not a power of two, with the queue the constructor builds from it.
\<close>

definition stress_results :: "nat \<Rightarrow> nat queue_result list" where
  "stress_results n = concat (map (\<lambda>i. [Published True, Consumed (Some i)]) [0..<n])"

definition stress_config :: DisruptorConfig where
  "stress_config = default_DisruptorConfig\<lparr>buffer_size := 1024\<rparr>"

definition two_slot_config :: DisruptorConfig where
  "two_slot_config = default_DisruptorConfig\<lparr>buffer_size := 2\<rparr>"

text \<open>The queue of two slots with the given slots, cursor and consumer sequence.\<close>

definition two_slot_queue :: "nat option list \<Rightarrow> int \<Rightarrow> int \<Rightarrow> nat DisruptorQueue" where
  "two_slot_queue slots c k =
     \<lparr>dq_config = two_slot_config, buffer_mask = 1, buffer = slots,
      cursor = c, consumer_sequence = k\<rparr>"

definition small_schedule :: "nat queue_op list" where
  "small_schedule =
     [Publish (Some 1), Publish (Some 2), Consume, Publish (Some 3), Consume, Consume]"

definition three_slot_config :: DisruptorConfig where
  "three_slot_config = default_DisruptorConfig\<lparr>buffer_size := 3\<rparr>"

definition three_slot_queue :: "nat DisruptorQueue" where
  "three_slot_queue =
     \<lparr>dq_config = three_slot_config\<lparr>buffer_size := 4\<rparr>, buffer_mask = 2,
      buffer = [None, None, None], cursor = - 1, consumer_sequence = - 1\<rparr>"

section \<open>Event pool (core/hpc\_utils.h, core/event\_pool.h)\<close>

text \<open>
  An event lives in the \<open>data\<close> of a block of a pool. A pointer to the event is the
  address of its block (the offset of \<open>data\<close> in the block is left out); \<open>None\<close> is
  \<open>nullptr\<close>. Addresses count blocks. \<open>aligned_malloc\<close> hands out the addresses from
  the break of the heap upward and is taken to succeed.
\<close>

type_synonym event_ptr = nat

datatype SignalType = SIGNAL_BUY | SIGNAL_SELL | SIGNAL_HOLD | SIGNAL_EXIT

text \<open>
  Modelled from the spec: \<open>TradingSignalEvent\<close> is declared in
  \<open>core/event_types.h\<close>, which is not among the sources. The fields are the ones the
  spec lists for the Signal variant and \<open>SmaCrossoverStrategy::generate_signal\<close> fills.
  \<open>OtherEvent\<close> stands for an event whose type is none of the three.
\<close>

record TradingSignalEvent =
  ts_strategy_id :: string
  ts_symbol :: string
  ts_signal :: SignalType
  ts_confidence :: double
  ts_suggested_quantity :: double

datatype Event =
    MarketData MarketDataEvent
  | TradingSignal TradingSignalEvent
  | TradeExecution TradeExecutionEvent
  | OtherEvent

datatype EventType = MARKET_DATA | TRADING_SIGNAL | TRADE_EXECUTION | UNKNOWN_TYPE

fun get_type :: "Event \<Rightarrow> EventType" where
  "get_type (MarketData _) = MARKET_DATA"
| "get_type (TradingSignal _) = TRADING_SIGNAL"
| "get_type (TradeExecution _) = TRADE_EXECUTION"
| "get_type OtherEvent = UNKNOWN_TYPE"

text \<open>
  \<open>MemoryPool<T>::Config\<close> and \<open>Statistics\<close>. NUMA awareness is off by default and
  prefetching changes no state: both are left out, with the two NUMA counters and the
  two cache counters, which nothing writes.
\<close>

record MemoryPoolConfig =
  initial_pool_size :: size_t
  growth_factor :: size_t
  max_pool_size :: size_t
  pool_enable_statistics :: bool

definition default_MemoryPoolConfig :: MemoryPoolConfig where
  "default_MemoryPoolConfig =
     \<lparr>initial_pool_size = 1000, growth_factor = 2, max_pool_size = 100000,
      pool_enable_statistics = False\<rparr>"

record MemoryPoolStatistics =
  total_allocations :: size_t
  total_deallocations :: size_t
  current_allocated :: size_t
  peak_allocated :: size_t
  pool_expansions :: size_t

text \<open>A \<open>Block\<close>, apart from its data: the link of the free list and the flag.\<close>

record Block =
  next_block :: "event_ptr option"
  is_allocated :: bool

definition new_Block :: Block where
  "new_Block = \<lparr>next_block = None, is_allocated = False\<rparr>"

text \<open>
  The pool. \<open>chunks\<close> has the base address and the number of blocks of each chunk;
  \<open>blocks\<close> is the memory of the chunks, the block at each address. The flag
  \<open>expanding_\<close> is false between two calls and is left out.
\<close>

record MemoryPool =
  pool_config :: MemoryPoolConfig
  pool_stats :: MemoryPoolStatistics
  chunks :: "(event_ptr \<times> nat) list"
  blocks :: "(event_ptr \<times> Block) list"
  free_list_head :: "event_ptr option"
  current_size :: size_t

text \<open>
  The block at an address. Reading an address outside every chunk is undefined
  behaviour in C++; it reads as a block just constructed here.
\<close>

definition block_at :: "(event_ptr \<times> Block) list \<Rightarrow> event_ptr \<Rightarrow> Block" where
  "block_at mem p = (case map_of mem p of Some b \<Rightarrow> b | None \<Rightarrow> new_Block)"

text \<open>
  \<open>push_free_block\<close>: the block's link is set to the head and the head to the block
  (the compare-and-swap succeeds). Pushing the block that is the head already makes it
  its own successor.
\<close>

definition push_free_block :: "event_ptr \<Rightarrow> MemoryPool \<Rightarrow> MemoryPool" where
  "push_free_block block pool =
     pool\<lparr>blocks := AList.update block
                        ((block_at (blocks pool) block)\<lparr>next_block := free_list_head pool\<rparr>)
                        (blocks pool),
          free_list_head := Some block\<rparr>"

text \<open>\<open>pop_free_block\<close>: the head is unlinked and its link cleared.\<close>

definition pop_free_block :: "MemoryPool \<Rightarrow> event_ptr option \<times> MemoryPool" where
  "pop_free_block pool =
     (case free_list_head pool of
        None \<Rightarrow> (None, pool)
      | Some head_block \<Rightarrow>
          (let successor = next_block (block_at (blocks pool) head_block) in
           (Some head_block,
            pool\<lparr>free_list_head := successor,
                 blocks := AList.update head_block
                             ((block_at (blocks pool) head_block)\<lparr>next_block := None\<rparr>)
                             (blocks pool)\<rparr>)))"

text \<open>
  \<open>allocate_chunk(count)\<close>, with the break of the heap as an argument and a result:
  the blocks are constructed at the addresses \<open>heap, ..., heap + count - 1\<close>, the chunk
  is recorded, and the blocks are pushed on the free list in this order, so that the
  last one becomes the head.
\<close>

definition allocate_chunk :: "size_t \<Rightarrow> event_ptr \<Rightarrow> MemoryPool \<Rightarrow> MemoryPool \<times> event_ptr" where
  "allocate_chunk count heap pool =
     (let addresses = map (\<lambda>i. heap + i) [0..<unat count];
          pool1 = pool\<lparr>blocks := fold (\<lambda>a. AList.update a new_Block) addresses (blocks pool),
                       chunks := chunks pool @ [(heap, unat count)]\<rparr>;
          pool2 = fold push_free_block addresses pool1
      in (pool2\<lparr>current_size := current_size pool2 + count\<rparr>, heap + unat count))"

text \<open>The constructor: \<open>initialize_pool\<close> allocates the first chunk.\<close>

definition new_MemoryPool :: "MemoryPoolConfig \<Rightarrow> event_ptr \<Rightarrow> MemoryPool \<times> event_ptr" where
  "new_MemoryPool c heap =
     allocate_chunk (initial_pool_size c) heap
       \<lparr>pool_config = c,
        pool_stats = \<lparr>total_allocations = 0, total_deallocations = 0, current_allocated = 0,
                      peak_allocated = 0, pool_expansions = 0\<rparr>,
        chunks = [], blocks = [], free_list_head = None, current_size = 0\<rparr>"

text \<open>
  \<open>expand_pool\<close>: the pool grows to \<open>min(current * growth_factor, max_pool_size)\<close>
  blocks, the product taken in \<open>size_t\<close>, when that is more than it has.
\<close>

definition expand_pool :: "event_ptr \<Rightarrow> MemoryPool \<Rightarrow> bool \<times> MemoryPool \<times> event_ptr" where
  "expand_pool heap pool =
     (let current = current_size pool;
          new_size = min (current * growth_factor (pool_config pool))
                         (max_pool_size (pool_config pool))
      in if new_size \<le> current then (False, pool, heap)
         else
           (let additional_blocks = new_size - current;
                (pool1, heap1) = allocate_chunk additional_blocks heap pool;
                st = pool_stats pool1;
                pool2 = (if pool_enable_statistics (pool_config pool1)
                         then pool1\<lparr>pool_stats := st\<lparr>pool_expansions := pool_expansions st + 1\<rparr>\<rparr>
                         else pool1)
            in (True, pool2, heap1)))"

text \<open>What \<open>allocate\<close> does with the block it has popped: the flag and the counters.\<close>

definition mark_allocated :: "event_ptr \<Rightarrow> MemoryPool \<Rightarrow> MemoryPool" where
  "mark_allocated block pool =
     (let pool1 = pool\<lparr>blocks := AList.update block
                                     ((block_at (blocks pool) block)\<lparr>is_allocated := True\<rparr>)
                                     (blocks pool)\<rparr>;
          st = pool_stats pool1
      in if pool_enable_statistics (pool_config pool1)
         then pool1\<lparr>pool_stats :=
                st\<lparr>total_allocations := total_allocations st + 1,
                   current_allocated := current_allocated st + 1,
                   peak_allocated := (if current_allocated st + 1 > peak_allocated st
                                      then current_allocated st + 1 else peak_allocated st)\<rparr>\<rparr>
         else pool1)"

text \<open>
  \<open>allocate\<close>: a block from the free list; when the list is empty the pool is
  expanded and the list tried again; \<open>nullptr\<close> when the pool cannot grow.
\<close>

definition MemoryPool_allocate ::
  "event_ptr \<Rightarrow> MemoryPool \<Rightarrow> event_ptr option \<times> MemoryPool \<times> event_ptr" where
  "MemoryPool_allocate heap pool =
     (case pop_free_block pool of
        (Some block, pool1) \<Rightarrow> (Some block, mark_allocated block pool1, heap)
      | (None, pool1) \<Rightarrow>
          (case expand_pool heap pool1 of
             (False, pool2, heap2) \<Rightarrow> (None, pool2, heap2)
           | (True, pool2, heap2) \<Rightarrow>
               (case pop_free_block pool2 of
                  (None, pool3) \<Rightarrow> (None, pool3, heap2)
                | (Some block, pool3) \<Rightarrow> (Some block, mark_allocated block pool3, heap2))))"

text \<open>
  \<open>deallocate\<close>: nothing for \<open>nullptr\<close>; otherwise the flag is cleared and the block
  pushed on the free list, whether or not it is there already.
\<close>

definition MemoryPool_deallocate :: "event_ptr option \<Rightarrow> MemoryPool \<Rightarrow> MemoryPool" where
  "MemoryPool_deallocate ptr pool =
     (case ptr of
        None \<Rightarrow> pool
      | Some block \<Rightarrow>
          (let pool1 = pool\<lparr>blocks := AList.update block
                                         ((block_at (blocks pool) block)\<lparr>is_allocated := False\<rparr>)
                                         (blocks pool)\<rparr>;
               pool2 = push_free_block block pool1;
               st = pool_stats pool2
           in if pool_enable_statistics (pool_config pool2)
              then pool2\<lparr>pool_stats :=
                     st\<lparr>total_deallocations := total_deallocations st + 1,
                        current_allocated := current_allocated st - 1\<rparr>\<rparr>
              else pool2))"

text \<open>
  The blocks on the free list: the chain of links from the head. A chain that runs
  into itself has no more blocks than the pool has, which bounds the walk.
\<close>

fun free_chain :: "nat \<Rightarrow> event_ptr option \<Rightarrow> (event_ptr \<times> Block) list \<Rightarrow> event_ptr list" where
  "free_chain 0 link mem = []"
| "free_chain (Suc n) None mem = []"
| "free_chain (Suc n) (Some block) mem =
     block # free_chain n (next_block (block_at mem block)) mem"

definition free_blocks :: "MemoryPool \<Rightarrow> event_ptr set" where
  "free_blocks pool = set (free_chain (length (blocks pool)) (free_list_head pool) (blocks pool))"

text \<open>
  \<open>EventPool\<close>: the three typed pools, in the order of their declaration. \<open>cells\<close> is
  the event in the data of each block, and \<open>heap_break\<close> the break of the heap the
  pools take their chunks from.
\<close>

record EventPool =
  market_data_pool :: MemoryPool
  signal_pool :: MemoryPool
  execution_pool :: MemoryPool
  cells :: "(event_ptr \<times> Event) list"
  heap_break :: event_ptr

definition new_EventPool :: "event_ptr \<Rightarrow> EventPool" where
  "new_EventPool heap =
     (let (mp, heap1) = new_MemoryPool default_MemoryPoolConfig heap;
          (sp, heap2) = new_MemoryPool default_MemoryPoolConfig heap1;
          (ep, heap3) = new_MemoryPool default_MemoryPoolConfig heap2
      in \<lparr>market_data_pool = mp, signal_pool = sp, execution_pool = ep, cells = [],
          heap_break = heap3\<rparr>)"

text \<open>
  The three \<open>create\<close> functions return the data of a block of their pool, and the
  caller fills the fields in; here the filled event is an argument.
\<close>

definition create_market_data_event ::
  "MarketDataEvent \<Rightarrow> EventPool \<Rightarrow> event_ptr option \<times> EventPool" where
  "create_market_data_event ev pool =
     (case MemoryPool_allocate (heap_break pool) (market_data_pool pool) of
        (None, mp, heap) \<Rightarrow> (None, pool\<lparr>market_data_pool := mp, heap_break := heap\<rparr>)
      | (Some ptr, mp, heap) \<Rightarrow>
          (Some ptr, pool\<lparr>market_data_pool := mp, heap_break := heap,
                          cells := AList.update ptr (MarketData ev) (cells pool)\<rparr>))"

definition create_trading_signal_event ::
  "TradingSignalEvent \<Rightarrow> EventPool \<Rightarrow> event_ptr option \<times> EventPool" where
  "create_trading_signal_event ev pool =
     (case MemoryPool_allocate (heap_break pool) (signal_pool pool) of
        (None, sp, heap) \<Rightarrow> (None, pool\<lparr>signal_pool := sp, heap_break := heap\<rparr>)
      | (Some ptr, sp, heap) \<Rightarrow>
          (Some ptr, pool\<lparr>signal_pool := sp, heap_break := heap,
                          cells := AList.update ptr (TradingSignal ev) (cells pool)\<rparr>))"

definition create_trade_execution_event ::
  "TradeExecutionEvent \<Rightarrow> EventPool \<Rightarrow> event_ptr option \<times> EventPool" where
  "create_trade_execution_event ev pool =
     (case MemoryPool_allocate (heap_break pool) (execution_pool pool) of
        (None, ep, heap) \<Rightarrow> (None, pool\<lparr>execution_pool := ep, heap_break := heap\<rparr>)
      | (Some ptr, ep, heap) \<Rightarrow>
          (Some ptr, pool\<lparr>execution_pool := ep, heap_break := heap,
                          cells := AList.update ptr (TradeExecution ev) (cells pool)\<rparr>))"

text \<open>
  \<open>destroy_event\<close>: nothing for \<open>nullptr\<close>; otherwise the block goes back to the pool
  of the event's type, and nowhere for an unknown type. A pointer to no event at all is
  undefined behaviour in C++ and is left alone here.
\<close>

definition destroy_event :: "event_ptr option \<Rightarrow> EventPool \<Rightarrow> EventPool" where
  "destroy_event event pool =
     (case event of
        None \<Rightarrow> pool
      | Some ptr \<Rightarrow>
         (case map_of (cells pool) ptr of
            None \<Rightarrow> pool
          | Some ev \<Rightarrow>
             (case get_type ev of
                MARKET_DATA \<Rightarrow>
                  pool\<lparr>market_data_pool :=
                         MemoryPool_deallocate (Some ptr) (market_data_pool pool)\<rparr>
              | TRADING_SIGNAL \<Rightarrow>
                  pool\<lparr>signal_pool := MemoryPool_deallocate (Some ptr) (signal_pool pool)\<rparr>
              | TRADE_EXECUTION \<Rightarrow>
                  pool\<lparr>execution_pool :=
                         MemoryPool_deallocate (Some ptr) (execution_pool pool)\<rparr>
              | UNKNOWN_TYPE \<Rightarrow> pool)))"

text \<open>
  The blocks some pool of the event pool holds as free, and whether the block at an
  address is marked as allocated in some pool.
\<close>

definition free_cells :: "EventPool \<Rightarrow> event_ptr set" where
  "free_cells pool =
     free_blocks (market_data_pool pool) \<union> free_blocks (signal_pool pool) \<union>
     free_blocks (execution_pool pool)"

definition marked_allocated :: "EventPool \<Rightarrow> event_ptr \<Rightarrow> bool" where
  "marked_allocated pool p =
     (is_allocated (block_at (blocks (market_data_pool pool)) p) \<or>
      is_allocated (block_at (blocks (signal_pool pool)) p) \<or>
      is_allocated (block_at (blocks (execution_pool pool)) p))"

section \<open>Event bus and dispatch loop (core/event\_queue.h, core/backtest\_engine.cpp)\<close>

record EventQueueConfig =
  use_disruptor :: bool
  eq_buffer_size :: size_t
  eq_wait_strategy :: WaitStrategyType
  eq_multi_producer :: bool
  eq_multi_consumer :: bool

definition default_EventQueueConfig :: EventQueueConfig where
  "default_EventQueueConfig =
     \<lparr>use_disruptor = True, eq_buffer_size = 1024 * 1024, eq_wait_strategy = YIELDING,
      eq_multi_producer = True, eq_multi_consumer = True\<rparr>"

record EventQueue =
  eq_config :: EventQueueConfig
  disruptor_queue :: "event_ptr DisruptorQueue option"
  traditional_queue :: "event_ptr option list"

definition new_EventQueue :: "EventQueueConfig \<Rightarrow> EventQueue option" where
  "new_EventQueue c =
     (if use_disruptor c
      then (case new_DisruptorQueue
                   \<lparr>buffer_size = eq_buffer_size c, wait_strategy = eq_wait_strategy c,
                    multi_producer = eq_multi_producer c,
                    multi_consumer = eq_multi_consumer c\<rparr> of
              None \<Rightarrow> None
            | Some dq \<Rightarrow>
                Some \<lparr>eq_config = c, disruptor_queue = Some dq, traditional_queue = []\<rparr>)
      else Some \<lparr>eq_config = c, disruptor_queue = None, traditional_queue = []\<rparr>)"

definition enqueue :: "event_ptr option \<Rightarrow> EventQueue \<Rightarrow> failure + EventQueue" where
  "enqueue event eq =
     (case (use_disruptor (eq_config eq), disruptor_queue eq) of
        (True, Some dq) \<Rightarrow>
          (case publish event dq of
             Inl f \<Rightarrow> Inl f
           | Inr dq' \<Rightarrow> Inr (eq\<lparr>disruptor_queue := Some dq'\<rparr>))
      | _ \<Rightarrow> Inr (eq\<lparr>traditional_queue := traditional_queue eq @ [event]\<rparr>))"

definition dequeue :: "EventQueue \<Rightarrow> failure + (event_ptr option \<times> EventQueue)" where
  "dequeue eq =
     (case (use_disruptor (eq_config eq), disruptor_queue eq) of
        (True, Some dq) \<Rightarrow>
          (case try_consume dq of
             Inl f \<Rightarrow> Inl f
           | Inr (event, dq') \<Rightarrow> Inr (event, eq\<lparr>disruptor_queue := Some dq'\<rparr>))
      | _ \<Rightarrow>
          (case traditional_queue eq of
             [] \<Rightarrow> Inr (None, eq)
           | event # rest \<Rightarrow> Inr (event, eq\<lparr>traditional_queue := rest\<rparr>)))"

text \<open>
  The strategies and the execution simulator are collaborators outside the core; they
  enter the engine as functions. A strategy has a state \<open>'s\<close>: \<open>strategy_on_market_data\<close>
  updates it and \<open>strategy_generate_signal\<close> decides on a signal, which is then
  constructed in a block of the pool (the strategy's \<open>generate_signal(pool)\<close> calls
  \<open>pool.create_trading_signal_event()\<close> and fills the fields). The simulator has a
  state \<open>'x\<close> and decides on a fill, constructed by \<open>pool.create_trade_execution_event()\<close>.
\<close>

record ('s, 'x) Collaborators =
  strategy_on_market_data :: "MarketDataEvent \<Rightarrow> 's \<Rightarrow> 's"
  strategy_generate_signal :: "'s \<Rightarrow> TradingSignalEvent option \<times> 's"
  simulate_order_execution ::
    "TradingSignalEvent \<Rightarrow> double \<Rightarrow> 'x \<Rightarrow> TradeExecutionEvent option \<times> 'x"

text \<open>
  The engine: the queue it reads, the strategies by symbol, the ledger, the simulator,
  and the event pool of \<open>get_event_pool_safe\<close>. The performance counters are written
  only when monitoring is enabled and are left out.
\<close>

record ('s, 'x) BacktestEngine =
  event_queue :: EventQueue
  strategies :: "(string \<times> 's) list"
  position_manager :: PositionManager
  execution_simulator :: 'x
  event_pool :: EventPool

definition add_event_safe ::
  "event_ptr option \<Rightarrow> ('s, 'x) BacktestEngine \<Rightarrow> failure + ('s, 'x) BacktestEngine" where
  "add_event_safe event eng =
     (case event of
        None \<Rightarrow> Inr eng
      | Some ptr \<Rightarrow>
          (case enqueue (Some ptr) (event_queue eng) of
             Inl f \<Rightarrow> Inl f
           | Inr eq \<Rightarrow> Inr (eng\<lparr>event_queue := eq\<rparr>)))"

definition process_market_data_event ::
  "('s, 'x) Collaborators \<Rightarrow> MarketDataEvent \<Rightarrow> ('s, 'x) BacktestEngine
     \<Rightarrow> failure + ('s, 'x) BacktestEngine" where
  "process_market_data_event co event eng =
     (let eng1 = eng\<lparr>position_manager := on_market_data event (position_manager eng)\<rparr> in
      case map_of (strategies eng1) (md_symbol event) of
        None \<Rightarrow> Inr eng1
      | Some st \<Rightarrow>
          (let st1 = strategy_on_market_data co event st;
               (decision, st2) = strategy_generate_signal co st1;
               eng2 = eng1\<lparr>strategies := AList.update (md_symbol event) st2 (strategies eng1)\<rparr>
           in case decision of
                None \<Rightarrow> Inr eng2
              | Some sig \<Rightarrow>
                  (let (signal, pool) = create_trading_signal_event sig (event_pool eng2)
                   in add_event_safe signal (eng2\<lparr>event_pool := pool\<rparr>))))"

text \<open>The reference price is the placeholder 100.0 of the source.\<close>

definition process_trading_signal_event ::
  "('s, 'x) Collaborators \<Rightarrow> TradingSignalEvent \<Rightarrow> ('s, 'x) BacktestEngine
     \<Rightarrow> failure + ('s, 'x) BacktestEngine" where
  "process_trading_signal_event co event eng =
     (let current_price = 100;
          (decision, sim) = simulate_order_execution co event current_price
                              (execution_simulator eng);
          eng1 = eng\<lparr>execution_simulator := sim\<rparr>
      in case decision of
           None \<Rightarrow> Inr eng1
         | Some fill \<Rightarrow>
             (let (execution_event, pool) = create_trade_execution_event fill (event_pool eng1)
              in add_event_safe execution_event (eng1\<lparr>event_pool := pool\<rparr>)))"

definition process_trade_execution_event ::
  "TradeExecutionEvent \<Rightarrow> ('s, 'x) BacktestEngine \<Rightarrow> ('s, 'x) BacktestEngine" where
  "process_trade_execution_event event eng =
     eng\<lparr>position_manager := on_trade_execution event (position_manager eng)\<rparr>"

text \<open>
  One round of the loop of \<open>process_events\<close>: take the next event; when there is none,
  yield and go on; otherwise dispatch on the event's dynamic type. The bookkeeping of
  latency and batches that follows has no effect on the state kept here. The round ends
  there: the source has no call of \<open>destroy_event\<close>.
\<close>

definition process_one_event ::
  "('s, 'x) Collaborators \<Rightarrow> ('s, 'x) BacktestEngine \<Rightarrow> failure + ('s, 'x) BacktestEngine" where
  "process_one_event co eng =
     (case dequeue (event_queue eng) of
        Inl f \<Rightarrow> Inl f
      | Inr (event, eq) \<Rightarrow>
          (let eng1 = eng\<lparr>event_queue := eq\<rparr> in
           case event of
             None \<Rightarrow> Inr eng1
           | Some ptr \<Rightarrow>
               (case map_of (cells (event_pool eng1)) ptr of
                  Some (MarketData e) \<Rightarrow> process_market_data_event co e eng1
                | Some (TradingSignal e) \<Rightarrow> process_trading_signal_event co e eng1
                | Some (TradeExecution e) \<Rightarrow> Inr (process_trade_execution_event e eng1)
                | _ \<Rightarrow> Inr eng1)))"

text \<open>
  \<open>process_events\<close>: the loop runs while no stop is requested and the data handler is
  not complete, both decided outside the engine; \<open>rounds\<close> is the number of times the
  condition holds.
\<close>

fun process_events ::
  "('s, 'x) Collaborators \<Rightarrow> nat \<Rightarrow> ('s, 'x) BacktestEngine \<Rightarrow> failure + ('s, 'x) BacktestEngine" where
  "process_events co 0 eng = Inr eng"
| "process_events co (Suc rounds) eng =
     (case process_one_event co eng of
        Inl f \<Rightarrow> Inl f
      | Inr eng' \<Rightarrow> process_events co rounds eng')"

text \<open>
  The parts of a small run: collaborators that do nothing (no strategy is registered,
  the simulator never fills), a bus of 8 slots, and an engine around a bus and a pool
  with a ledger of capital 100000. The pool is a small one: the market data pool and the
  signal pool have no block, the execution pool has one chunk of the two blocks 1 and 2,
  both free, block 1 at the head of the free list.
\<close>

definition idle_collaborators :: "(unit, unit) Collaborators" where
  "idle_collaborators =
     \<lparr>strategy_on_market_data = (\<lambda>_ st. st),
      strategy_generate_signal = (\<lambda>st. (None, st)),
      simulate_order_execution = (\<lambda>_ _ sim. (None, sim))\<rparr>"

definition small_bus_config :: EventQueueConfig where
  "small_bus_config = default_EventQueueConfig\<lparr>eq_buffer_size := 8\<rparr>"

definition small_pool_config :: "nat \<Rightarrow> MemoryPoolConfig" where
  "small_pool_config n = default_MemoryPoolConfig\<lparr>initial_pool_size := of_nat n\<rparr>"

definition small_pool ::
  "nat \<Rightarrow> (event_ptr \<times> nat) list \<Rightarrow> (event_ptr \<times> Block) list \<Rightarrow> event_ptr option
     \<Rightarrow> MemoryPool" where
  "small_pool n cs mem link =
     \<lparr>pool_config = small_pool_config n,
      pool_stats = \<lparr>total_allocations = 0, total_deallocations = 0, current_allocated = 0,
                    peak_allocated = 0, pool_expansions = 0\<rparr>,
      chunks = cs, blocks = mem, free_list_head = link, current_size = of_nat n\<rparr>"

definition fresh_pool :: EventPool where
  "fresh_pool =
     \<lparr>market_data_pool = small_pool 0 [] [] None,
      signal_pool = small_pool 0 [] [] None,
      execution_pool =
        small_pool 2 [(1, 2)]
          [(1, \<lparr>next_block = Some 2, is_allocated = False\<rparr>),
           (2, \<lparr>next_block = None, is_allocated = False\<rparr>)]
          (Some 1),
      cells = [], heap_break = 3\<rparr>"

definition small_engine :: "EventQueue \<Rightarrow> EventPool \<Rightarrow> (unit, unit) BacktestEngine" where
  "small_engine bus pool =
     \<lparr>event_queue = bus, strategies = [],
      position_manager = new_PositionManager 100000, execution_simulator = (),
      event_pool = pool\<rparr>"

text \<open>
  The states the small run passes through: the bus of 8 slots with the given slots,
  cursor and consumer sequence, and the pool once block 1 has been taken for the fill
  ``buy 100 AAPL at 150''.
\<close>

definition small_bus :: "event_ptr option list \<Rightarrow> int \<Rightarrow> int \<Rightarrow> EventQueue" where
  "small_bus slots c k =
     \<lparr>eq_config = small_bus_config,
      disruptor_queue =
        Some \<lparr>dq_config = default_DisruptorConfig\<lparr>buffer_size := 8\<rparr>, buffer_mask = 7,
              buffer = slots, cursor = c, consumer_sequence = k\<rparr>,
      traditional_queue = []\<rparr>"

definition pool_in_use :: EventPool where
  "pool_in_use =
     fresh_pool\<lparr>execution_pool :=
                   small_pool 2 [(1, 2)]
                     [(1, \<lparr>next_block = None, is_allocated = True\<rparr>),
                      (2, \<lparr>next_block = None, is_allocated = False\<rparr>)]
                     (Some 2),
                 cells := [(1, TradeExecution scenario_buy)]\<rparr>"

section \<open>The portfolio ledger: claims C1, C4, C5 and C10\<close>

subsection \<open>How each stage of a fill moves the aggregates\<close>

lemma remove_flat_position_stats:
  "portfolio_stats (remove_flat_position sy pm) = portfolio_stats pm"
  by (simp add: remove_flat_position_def split: option.splits)

lemma get_or_create_position_stats:
  "portfolio_stats (snd (get_or_create_position sy pm)) = portfolio_stats pm"
  by (simp add: get_or_create_position_def Let_def split: option.splits)

lemma get_or_create_position_found:
  "map_of (positions pm) sy = Some p \<Longrightarrow> get_or_create_position sy pm = (p, pm)"
  by (simp add: get_or_create_position_def)

lemma update_position_counts_fields:
  "total_equity (portfolio_stats (update_position_counts sy a b c d e f pm)) =
     total_equity (portfolio_stats pm)"
  "total_market_value (portfolio_stats (update_position_counts sy a b c d e f pm)) =
     total_market_value (portfolio_stats pm)"
  "total_realized_pnl (portfolio_stats (update_position_counts sy a b c d e f pm)) =
     total_realized_pnl (portfolio_stats pm)"
  "available_cash (portfolio_stats (update_position_counts sy a b c d e f pm)) =
     available_cash (portfolio_stats pm)"
  by (simp_all add: update_position_counts_def Let_def remove_flat_position_stats)

lemma update_portfolio_statistics_fields:
  "total_equity (portfolio_stats (update_portfolio_statistics sy ov nv r pm)) =
     total_equity (portfolio_stats pm)"
  "total_market_value (portfolio_stats (update_portfolio_statistics sy ov nv r pm)) =
     total_market_value (portfolio_stats pm) + (if \<bar>nv - ov\<bar> > 1 / 10 ^ 8 then nv - ov else 0)"
  "total_realized_pnl (portfolio_stats (update_portfolio_statistics sy ov nv r pm)) =
     total_realized_pnl (portfolio_stats pm) + (if \<bar>r\<bar> > 1 / 10 ^ 8 then r else 0)"
  "available_cash (portfolio_stats (update_portfolio_statistics sy ov nv r pm)) =
     available_cash (portfolio_stats pm)"
  by (simp_all add: update_portfolio_statistics_def Let_def)

lemma update_pnl_statistics_fields:
  "total_equity (portfolio_stats (update_pnl_statistics u r pm)) = total_equity (portfolio_stats pm)"
  "total_market_value (portfolio_stats (update_pnl_statistics u r pm)) =
     total_market_value (portfolio_stats pm)"
  "total_realized_pnl (portfolio_stats (update_pnl_statistics u r pm)) =
     total_realized_pnl (portfolio_stats pm) + (if \<bar>r\<bar> > 1 / 10 ^ 8 then r else 0)"
  "available_cash (portfolio_stats (update_pnl_statistics u r pm)) =
     available_cash (portfolio_stats pm)"
  by (simp_all add: update_pnl_statistics_def Let_def)

lemma update_total_equity_fields:
  "total_equity (portfolio_stats (update_total_equity m pm)) =
     total_equity (portfolio_stats pm) + (if \<bar>m\<bar> > 1 / 10 ^ 8 then m else 0)"
  "total_market_value (portfolio_stats (update_total_equity m pm)) =
     total_market_value (portfolio_stats pm)"
  "total_realized_pnl (portfolio_stats (update_total_equity m pm)) =
     total_realized_pnl (portfolio_stats pm)"
  "available_cash (portfolio_stats (update_total_equity m pm)) =
     available_cash (portfolio_stats pm)"
  by (simp_all add: update_total_equity_def)

lemmas fill_stage_fields =
  update_position_counts_fields update_portfolio_statistics_fields
  update_pnl_statistics_fields update_total_equity_fields get_or_create_position_stats

lemmas ledger_defs =
  run_ledger_def on_trade_execution_def update_position_on_fill_lockfree_def
  get_or_create_position_def adjust_position_def update_pnl_def
  update_portfolio_statistics_def update_position_counts_def remove_flat_position_def
  get_market_value_def is_long_def is_short_def is_flat_def new_Position_def
  new_PositionManager_def on_market_data_def get_total_equity_def
  update_pnl_statistics_def update_total_equity_def

subsection \<open>C1: total equity against cash plus market value\<close>

text \<open>
  Whatever runs, the equity aggregate moves only together with the market-value
  aggregate: the cash a fill pays or receives never reaches it.
\<close>

lemma on_market_data_equity_gap:
  "total_equity (portfolio_stats (on_market_data e pm)) -
     total_market_value (portfolio_stats (on_market_data e pm)) =
   total_equity (portfolio_stats pm) - total_market_value (portfolio_stats pm)"
  by (simp add: on_market_data_def get_total_equity_def Let_def split: option.splits prod.splits)

lemma on_trade_execution_equity_gap:
  "total_equity (portfolio_stats (on_trade_execution e pm)) -
     total_market_value (portfolio_stats (on_trade_execution e pm)) =
   total_equity (portfolio_stats pm) - total_market_value (portfolio_stats pm)"
  by (simp add: on_trade_execution_def update_position_on_fill_lockfree_def Let_def split_beta
        fill_stage_fields)

lemma on_trade_execution_cash:
  "available_cash (portfolio_stats (on_trade_execution e pm)) =
   available_cash (portfolio_stats pm) +
     (if te_is_buy e then - 1 else 1) * (te_quantity e * te_price e) - te_commission e"
  by (simp add: on_trade_execution_def update_position_on_fill_lockfree_def Let_def split_beta
        fill_stage_fields)

lemma run_ledger_equity_gap:
  "total_equity (portfolio_stats (run_ledger ops pm)) -
     total_market_value (portfolio_stats (run_ledger ops pm)) =
   total_equity (portfolio_stats pm) - total_market_value (portfolio_stats pm)"
proof (induction ops arbitrary: pm)
  case Nil
  show ?case by (simp add: run_ledger_def)
next
  case (Cons a ops)
  have step: "run_ledger (a # ops) pm = run_ledger ops (apply_ledger_op a pm)"
    by (simp add: run_ledger_def)
  have "total_equity (portfolio_stats (run_ledger (a # ops) pm)) -
          total_market_value (portfolio_stats (run_ledger (a # ops) pm)) =
        total_equity (portfolio_stats (apply_ledger_op a pm)) -
          total_market_value (portfolio_stats (apply_ledger_op a pm))"
    unfolding step by (rule Cons)
  also have "\<dots> = total_equity (portfolio_stats pm) - total_market_value (portfolio_stats pm)"
    by (cases a) (simp_all add: on_market_data_equity_gap on_trade_execution_equity_gap)
  finally show ?case .
qed

text \<open>
  The sibling path \<open>recalculate_portfolio_totals\<close> does compute the equity as cash plus
  the market value of the open positions.
\<close>

lemma recalculate_portfolio_totals_equity:
  "total_equity (portfolio_stats (recalculate_portfolio_totals pm)) =
   available_cash (portfolio_stats pm) +
     sum_list (map get_market_value (filter (\<lambda>p. \<not> is_flat p) (map snd (positions pm))))"
  by (simp add: recalculate_portfolio_totals_def Let_def)

text \<open>
  Claim C1. The portfolio's total equity is to equal the available cash plus the sum of
  the positions' market values after every sequence of bars and fills; after the fill
  ``buy 100 at 150, commission 5'' and a bar closing at 155, \<open>get_total_equity\<close> is to
  return the initial capital \<open>- 15005 + 15500\<close>. The code returns the initial capital
  \<open>+ 15500\<close> there, for every initial capital \<open>c\<close>, while the cash plus the positions'
  market value is \<open>c - 15005 + 15500\<close>: the claim fails on the code.
\<close>

theorem C1_total_equity_leaves_cash_out:
  "fst (get_total_equity (run_ledger [Fill scenario_buy, Bar scenario_bar]
          (new_PositionManager c))) = c + 15500 \<and>
   get_available_cash (run_ledger [Fill scenario_buy, Bar scenario_bar]
          (new_PositionManager c)) +
   positions_market_value (run_ledger [Fill scenario_buy, Bar scenario_bar]
          (new_PositionManager c)) = c - 15005 + 15500"
  by (simp add: ledger_defs scenario_buy_def scenario_bar_def Let_def get_available_cash_def
        positions_market_value_def)

subsection \<open>C4: the realized P&L aggregate\<close>

lemma adjust_position_closure:
  assumes "pos_quantity p \<noteq> 0"
    and "(pos_quantity p > 0 \<and> d < 0) \<or> (pos_quantity p < 0 \<and> d > 0)"
  shows "fst (adjust_position d px p) =
           (px - entry_price p) * min \<bar>d\<bar> \<bar>pos_quantity p\<bar> * sgn (pos_quantity p)"
    and "realized_pnl (snd (adjust_position d px p)) =
           realized_pnl p + fst (adjust_position d px p)"
  using assms by (auto simp add: adjust_position_def Let_def update_pnl_def sgn_real_def)

lemma on_trade_execution_total_realized:
  assumes "map_of (positions pm) (te_symbol e) = Some p"
  shows "total_realized_pnl (portfolio_stats (on_trade_execution e pm)) =
         total_realized_pnl (portfolio_stats pm) +
         (let a = adjust_position (te_quantity e * (if te_is_buy e then 1 else - 1)) (te_price e) p;
              r = fst a;
              c = realized_pnl (snd a) - realized_pnl p
          in (if \<bar>r\<bar> > 1 / 10 ^ 8 then r else 0) + (if \<bar>c\<bar> > 1 / 10 ^ 8 then c else 0))"
  using assms
  by (simp add: on_trade_execution_def update_position_on_fill_lockfree_def Let_def split_beta
        fill_stage_fields get_or_create_position_def)

text \<open>
  For every fill that reduces or flips a position, the aggregate moves by twice the
  realized P&L of the trade (or not at all when that is within \<open>1e-8\<close> of zero):
  \<open>update_portfolio_statistics\<close> adds it, and the block ``Update P&L statistics'' adds
  the change of the position's own realized P&L, which is the same amount.
\<close>

lemma on_trade_execution_realized_twice:
  assumes "map_of (positions pm) (te_symbol e) = Some p"
    and "pos_quantity p \<noteq> 0"
    and "(pos_quantity p > 0 \<and> \<not> te_is_buy e \<and> te_quantity e > 0) \<or>
         (pos_quantity p < 0 \<and> te_is_buy e \<and> te_quantity e > 0)"
  shows "get_total_realized_pnl (on_trade_execution e pm) - get_total_realized_pnl pm =
         (let r = (te_price e - entry_price p) * min (te_quantity e) \<bar>pos_quantity p\<bar> *
                  sgn (pos_quantity p)
          in if \<bar>r\<bar> > 1 / 10 ^ 8 then 2 * r else 0)"
proof -
  let ?d = "te_quantity e * (if te_is_buy e then 1 else - 1)"
  have cl: "(pos_quantity p > 0 \<and> ?d < 0) \<or> (pos_quantity p < 0 \<and> ?d > 0)"
    using assms(3) by auto
  have ad: "\<bar>?d\<bar> = te_quantity e"
    using assms(3) by auto
  note r = adjust_position_closure [OF assms(2) cl, of "te_price e"]
  show ?thesis
    unfolding get_total_realized_pnl_def on_trade_execution_total_realized [OF assms(1)]
    using r ad by (simp add: Let_def)
qed

text \<open>
  Claim C4. A fill that reduces or flips a position with prior quantity \<open>q \<noteq> 0\<close> and
  entry price \<open>e\<close> is to change the portfolio's total realized P&L by exactly
  \<open>(fill.price - e) * closed_qty * sign q\<close>. In the spec's scenario 3 (long 100 at
  150, then sell 100 at 160) that is 1000; the aggregate of the code goes from 0 to 2000,
  while the trade's own realized P&L, as \<open>adjust_position\<close> returns it, is 1000.
\<close>

theorem C4_total_realized_pnl_counted_twice:
  "get_total_realized_pnl (run_ledger [Fill scenario_buy] (new_PositionManager c)) = 0 \<and>
   get_total_realized_pnl (run_ledger [Fill scenario_buy, Fill scenario_sell]
      (new_PositionManager c)) = 2000 \<and>
   fst (adjust_position (- 100) 160 (new_Position ''AAPL'' 100 150)) = 1000"
  by (simp add: ledger_defs scenario_buy_def scenario_sell_def Let_def get_total_realized_pnl_def)

subsection \<open>C5: the entry price policy of \<open>adjust_position\<close>\<close>

text \<open>Adding in the same direction gives the notional-weighted average.\<close>

lemma adjust_position_increase_entry:
  assumes "pos_quantity p * d \<ge> 0"
    and "\<bar>pos_quantity (snd (adjust_position d px p))\<bar> > \<bar>pos_quantity p\<bar>"
  shows "entry_price (snd (adjust_position d px p)) =
         (pos_quantity p * entry_price p + d * px) / (pos_quantity p + d)"
  using assms by (auto simp add: adjust_position_def Let_def update_pnl_def split: if_splits)

text \<open>
  A fill against the position leaves the entry price as it is: when it reduces the
  position, and also when it flips it.
\<close>

lemma adjust_position_opposite_entry:
  assumes "(pos_quantity p > 0 \<and> d < 0) \<or> (pos_quantity p < 0 \<and> d > 0)"
  shows "entry_price (snd (adjust_position d px p)) = entry_price p"
  using assms
  by (auto simp add: adjust_position_def Let_def update_pnl_def zero_le_mult_iff split: if_splits)

text \<open>
  Claim C5. The entry price is to be the notional-weighted average after a fill that adds
  in the same direction, unchanged after a fill that reduces the position, and reset to
  reflect the new direction after a fill that flips it. The first two hold
  (\<open>adjust_position_increase_entry\<close>, \<open>adjust_position_opposite_entry\<close>). The third
  fails: a position long 100 at 150 that sells 150 at 160 is short 50 afterwards, opened
  at 160, and its entry price is still 150.
\<close>

theorem C5_flip_keeps_entry_price:
  "pos_quantity (snd (adjust_position (- 150) 160 (new_Position ''AAPL'' 100 150))) = - 50 \<and>
   entry_price (snd (adjust_position (- 150) 160 (new_Position ''AAPL'' 100 150))) = 150"
  by (simp add: adjust_position_def Let_def update_pnl_def new_Position_def)

subsection \<open>C10: the mark price of a freshly opened position\<close>

lemma fill_stage_positions:
  "positions (update_portfolio_statistics sy ov nv r pm) = positions pm"
  "positions (update_pnl_statistics u r pm) = positions pm"
  "positions (update_total_equity m pm) = positions pm"
  by (simp_all add: update_portfolio_statistics_def update_pnl_statistics_def
        update_total_equity_def Let_def)

lemma remove_flat_position_map:
  "map_of (positions (remove_flat_position sy pm)) k =
     (if k = sy \<and> (\<exists>p. map_of (positions pm) sy = Some p \<and> is_flat p) then None
      else map_of (positions pm) k)"
  by (auto simp add: remove_flat_position_def delete_conv' split: option.splits)

lemma update_position_counts_map:
  "map_of (positions (update_position_counts sy ex wl ws nl ns nf pm)) k =
     (if ex \<and> nf \<and> k = sy \<and> (\<exists>p. map_of (positions pm) sy = Some p \<and> is_flat p) then None
      else map_of (positions pm) k)"
  by (auto simp add: update_position_counts_def Let_def remove_flat_position_map)

text \<open>The position map after a fill, and after a bar.\<close>

lemma on_trade_execution_map:
  "map_of (positions (on_trade_execution e pm)) k =
     (if k = te_symbol e then
        (case map_of (positions pm) k of
           None \<Rightarrow> Some (snd (adjust_position (te_quantity e * (if te_is_buy e then 1 else - 1))
                                 (te_price e) (new_Position k 0 0)))
         | Some p \<Rightarrow>
             (let p' = snd (adjust_position (te_quantity e * (if te_is_buy e then 1 else - 1))
                              (te_price e) p)
              in if is_flat p' then None else Some p'))
      else map_of (positions pm) k)"
  by (simp add: on_trade_execution_def update_position_on_fill_lockfree_def Let_def split_beta
        fill_stage_positions update_position_counts_map get_or_create_position_def update_conv'
        split: option.splits)

lemma on_market_data_map:
  "map_of (positions (on_market_data ev pm)) k =
     (if k = md_symbol ev then map_option (update_pnl (md_close ev)) (map_of (positions pm) k)
      else map_of (positions pm) k)"
  by (simp add: on_market_data_def get_total_equity_def Let_def update_conv'
        split: option.splits prod.splits)

lemma adjust_position_current_price:
  "current_price (snd (adjust_position d px p)) = current_price p"
  by (simp add: adjust_position_def Let_def update_pnl_def)

lemma adjust_position_new:
  assumes "\<not> is_flat (snd (adjust_position d px (new_Position sy 0 0)))"
  shows "snd (adjust_position d px (new_Position sy 0 0)) =
         \<lparr>pos_symbol = sy, pos_quantity = d, entry_price = px, current_price = 0,
          unrealized_pnl = (0 - px) * d, realized_pnl = 0\<rparr>"
  using assms
  by (auto simp add: adjust_position_def Let_def update_pnl_def new_Position_def is_flat_def
        split: if_splits)

lemma run_ledger_Cons: "run_ledger (a # ops) pm = run_ledger ops (apply_ledger_op a pm)"
  by (simp add: run_ledger_def)

lemma untouched_step:
  "\<not> touches sy a \<Longrightarrow> map_of (positions (apply_ledger_op a pm)) sy = map_of (positions pm) sy"
  by (cases a) (auto simp add: on_trade_execution_map on_market_data_map)

lemma untouched_run:
  "\<forall>a\<in>set ops. \<not> touches sy a \<Longrightarrow>
   map_of (positions (run_ledger ops pm)) sy = map_of (positions pm) sy"
proof (induction ops arbitrary: pm)
  case Nil
  show ?case by (simp add: run_ledger_def)
next
  case (Cons a ops)
  show ?case
    unfolding run_ledger_Cons using Cons.IH [of "apply_ledger_op a pm"] Cons.prems
    by (simp add: untouched_step)
qed

lemma unmarked_step:
  "\<not> is_bar_for sy a \<Longrightarrow> unmarked sy pm \<Longrightarrow> unmarked sy (apply_ledger_op a pm)"
  by (cases a)
     (auto simp add: unmarked_def on_trade_execution_map on_market_data_map
        adjust_position_current_price new_Position_def Let_def split: option.splits)

lemma unmarked_run:
  "\<forall>a\<in>set ops. \<not> is_bar_for sy a \<Longrightarrow> unmarked sy pm \<Longrightarrow> unmarked sy (run_ledger ops pm)"
proof (induction ops arbitrary: pm)
  case Nil
  then show ?case by (simp add: run_ledger_def)
next
  case (Cons a ops)
  show ?case
    unfolding run_ledger_Cons using Cons.IH [of "apply_ledger_op a pm"] Cons.prems
    by (simp add: unmarked_step)
qed

text \<open>What a fill does to a symbol that has no entry in the position map.\<close>

lemma fresh_position:
  assumes absent: "map_of (positions pm) (te_symbol e) = None"
    and created: "has_position (te_symbol e) (on_trade_execution e pm)"
  shows "get_position_snapshot (te_symbol e) (on_trade_execution e pm) =
         Some \<lparr>pos_symbol = te_symbol e,
               pos_quantity = te_quantity e * (if te_is_buy e then 1 else - 1),
               entry_price = te_price e, current_price = 0,
               unrealized_pnl =
                 (0 - te_price e) * (te_quantity e * (if te_is_buy e then 1 else - 1)),
               realized_pnl = 0\<rparr>"
proof -
  let ?d = "te_quantity e * (if te_is_buy e then 1 else - 1)"
  let ?p = "snd (adjust_position ?d (te_price e) (new_Position (te_symbol e) 0 0))"
  have m: "map_of (positions (on_trade_execution e pm)) (te_symbol e) = Some ?p"
    using absent by (simp add: on_trade_execution_map)
  have "\<not> is_flat ?p"
    using created m by (simp add: has_position_def)
  from adjust_position_new [OF this] m show ?thesis
    by (simp add: get_position_snapshot_def)
qed

text \<open>
  Claim C10, as it stands: the unrealized P&L of the freshly opened position keeps its
  value \<open>(0 - fill.price) * signed quantity\<close> until the next market bar for the symbol.
  A second fill for the symbol, with no bar in between, changes it: after buy 100 at 150
  the unrealized P&L is \<open>- 15000\<close>, after a further buy 100 at 160 it is \<open>- 31000\<close>.
\<close>

theorem C10_second_fill_counterexample:
  "map_option unrealized_pnl (get_position_snapshot ''AAPL''
       (run_ledger [Fill scenario_buy] (new_PositionManager 100000))) = Some (- 15000) \<and>
   map_option unrealized_pnl (get_position_snapshot ''AAPL''
       (run_ledger [Fill scenario_buy, Fill scenario_buy_more] (new_PositionManager 100000)))
     = Some (- 31000)"
  by (simp add: ledger_defs scenario_buy_def scenario_buy_more_def Let_def
        get_position_snapshot_def)

text \<open>
  Claim C10, amended. Let a fill create a position for a symbol that has had no fill and
  no bar before (the ledger started from its initial capital). Immediately after the
  call the position's mark price is 0, its unrealized P&L is
  \<open>(0 - fill.price) * signed fill quantity\<close> and its market value is 0. The position
  stays exactly so while no bar and no further fill for the symbol arrives; and while no
  bar for the symbol arrives, whatever is filled, the symbol's position (when it has one)
  keeps the mark price 0 and the market value 0.
\<close>

theorem C10_fresh_position_unmarked:
  assumes "\<forall>a\<in>set earlier. \<not> touches (te_symbol e) a"
    and "pm = run_ledger earlier (new_PositionManager c)"
    and "has_position (te_symbol e) (on_trade_execution e pm)"
  shows "\<exists>p. get_position_snapshot (te_symbol e) (on_trade_execution e pm) = Some p \<and>
             current_price p = 0 \<and>
             unrealized_pnl p =
               (0 - te_price e) * (te_quantity e * (if te_is_buy e then 1 else - 1)) \<and>
             get_market_value p = 0 \<and>
             (\<forall>later. (\<forall>a\<in>set later. \<not> touches (te_symbol e) a) \<longrightarrow>
                get_position_snapshot (te_symbol e)
                  (run_ledger later (on_trade_execution e pm)) = Some p) \<and>
             (\<forall>later p'. (\<forall>a\<in>set later. \<not> is_bar_for (te_symbol e) a) \<and>
                get_position_snapshot (te_symbol e)
                  (run_ledger later (on_trade_execution e pm)) = Some p' \<longrightarrow>
                current_price p' = 0 \<and> get_market_value p' = 0)"
proof -
  let ?sy = "te_symbol e"
  let ?pm' = "on_trade_execution e pm"
  let ?p = "\<lparr>pos_symbol = ?sy,
             pos_quantity = te_quantity e * (if te_is_buy e then 1 else - 1),
             entry_price = te_price e, current_price = 0,
             unrealized_pnl =
               (0 - te_price e) * (te_quantity e * (if te_is_buy e then 1 else - 1)),
             realized_pnl = 0\<rparr>"
  have absent: "map_of (positions pm) ?sy = None"
    unfolding assms(2) untouched_run [OF assms(1)] by (simp add: new_PositionManager_def)
  have snap: "get_position_snapshot ?sy ?pm' = Some ?p"
    by (rule fresh_position [OF absent assms(3)])
  have stays: "get_position_snapshot ?sy (run_ledger later ?pm') = Some ?p"
    if "\<forall>a\<in>set later. \<not> touches ?sy a" for later
    using untouched_run [OF that, of ?pm'] snap by (simp add: get_position_snapshot_def)
  have um: "unmarked ?sy ?pm'"
    using snap by (simp add: unmarked_def get_position_snapshot_def)
  have mark: "current_price p' = 0 \<and> get_market_value p' = 0"
    if "\<forall>a\<in>set later. \<not> is_bar_for ?sy a"
      and "get_position_snapshot ?sy (run_ledger later ?pm') = Some p'" for later p'
    using unmarked_run [OF that(1) um] that(2)
    by (simp add: unmarked_def get_position_snapshot_def get_market_value_def)
  show ?thesis
    using snap stays mark by (intro exI [of _ ?p]) (simp add: get_market_value_def, blast)
qed

theorem C10_fresh_position_unmarked_witness:
  "\<exists>p. get_position_snapshot ''AAPL''
          (on_trade_execution scenario_buy (new_PositionManager 100000)) = Some p \<and>
       current_price p = 0 \<and> unrealized_pnl p = - 15000 \<and> get_market_value p = 0 \<and>
       get_position_snapshot ''AAPL''
          (run_ledger [Fill other_symbol_buy, Bar other_symbol_bar]
             (on_trade_execution scenario_buy (new_PositionManager 100000))) = Some p"
proof -
  have h1: "\<forall>a\<in>set []. \<not> touches (te_symbol scenario_buy) a"
    by simp
  have h2: "new_PositionManager 100000 = run_ledger [] (new_PositionManager 100000)"
    by (simp add: run_ledger_def)
  have h3: "has_position (te_symbol scenario_buy)
              (on_trade_execution scenario_buy (new_PositionManager 100000))"
    by (simp add: has_position_def ledger_defs scenario_buy_def Let_def)
  have h4: "\<forall>a\<in>set [Fill other_symbol_buy, Bar other_symbol_bar].
              \<not> touches (te_symbol scenario_buy) a"
    by (simp add: scenario_buy_def other_symbol_buy_def other_symbol_bar_def)
  from C10_fresh_position_unmarked [OF h1 h2 h3] obtain p where
    p: "get_position_snapshot (te_symbol scenario_buy)
          (on_trade_execution scenario_buy (new_PositionManager 100000)) = Some p"
       "current_price p = 0"
       "unrealized_pnl p = (0 - te_price scenario_buy) *
          (te_quantity scenario_buy * (if te_is_buy scenario_buy then 1 else - 1))"
       "get_market_value p = 0"
       "\<forall>later. (\<forall>a\<in>set later. \<not> touches (te_symbol scenario_buy) a) \<longrightarrow>
          get_position_snapshot (te_symbol scenario_buy)
            (run_ledger later (on_trade_execution scenario_buy (new_PositionManager 100000)))
          = Some p"
    by blast
  from p(5) h4 have "get_position_snapshot (te_symbol scenario_buy)
      (run_ledger [Fill other_symbol_buy, Bar other_symbol_bar]
         (on_trade_execution scenario_buy (new_PositionManager 100000))) = Some p"
    by blast
  with p(1-4) show ?thesis
    by (intro exI [of _ p]) (simp add: scenario_buy_def)
qed

section \<open>The order book: claims C6, C7 and C8\<close>

lemmas book_defs =
  empty_book_def scenario_book_def same_price_book_def filled_book_def
  new_LockFreeOrderBook_def default_OrderBookConfig_def OrderBookConfig_validate_def
  add_order_def round_to_tick_def cpp_round_def get_or_create_price_level_def
  new_PriceLevel_def new_Order_def PriceLevel_add_order_def get_remaining_quantity_def
  match_market_order_def new_MatchResult_def has_orders_def PriceLevel_match_orders_def
  is_opposite_side_def is_active_def try_fill_def find_orders_def order_states_def
  cancel_order_def PriceLevel_remove_order_def

subsection \<open>Prices on the tick grid\<close>

text \<open>A price that is a multiple of the tick is what \<open>round_to_tick\<close> returns for it.\<close>

lemma cpp_round_of_int: "cpp_round (of_int n) = of_int n"
proof -
  have "\<lfloor>(of_int m :: real) + 1 / 2\<rfloor> = m" for m :: int
    by linarith
  from this [of n] this [of "- n"] show ?thesis
    by (simp add: cpp_round_def)
qed

lemma round_to_tick_on_grid:
  assumes "tick_size (config book) \<noteq> 0"
  shows "round_to_tick book (of_int n * tick_size (config book)) =
         of_int n * tick_size (config book)"
  using assms by (simp add: round_to_tick_def cpp_round_of_int)

subsection \<open>C7: the book matching scenario\<close>

text \<open>
  Claim C7. On an empty book \<open>match_market_order(BUY, 100)\<close> returns matched quantity 0
  and \<open>fully_filled = false\<close>. After \<open>add_order(1, SELL, 100.00, 30)\<close> and
  \<open>add_order(2, SELL, 100.01, 80)\<close> (both return true), \<open>match_market_order(BUY, 100)\<close>
  returns matched quantity 100, average price \<open>(30 * 100.00 + 70 * 100.01) / 100\<close>,
  \<open>orders_matched = 2\<close> and \<open>fully_filled = true\<close>, and leaves order 1 with status
  \<open>FULLY_FILLED\<close> and order 2 with remaining quantity 10.
\<close>

theorem C7_book_matching_scenario:
  "matched_quantity (fst (match_market_order BUY 100 0 0 empty_book)) = 0 \<and>
   fully_filled (fst (match_market_order BUY 100 0 0 empty_book)) = False \<and>
   fst (add_order 1 SELL 100 30 empty_book) = True \<and>
   fst (add_order 2 SELL (10001 / 100) 80 (snd (add_order 1 SELL 100 30 empty_book))) = True \<and>
   fst (match_market_order BUY 100 0 0 scenario_book) =
     \<lparr>matched_quantity = 100,
      average_price = (30 * 100 + 70 * (10001 / 100)) / 100,
      orders_matched = 2, matched_order_ids = [], fully_filled = True\<rparr> \<and>
   order_states 1 (ask_levels (snd (match_market_order BUY 100 0 0 scenario_book))) =
     [(FULLY_FILLED, 0)] \<and>
   order_states 2 (ask_levels (snd (match_market_order BUY 100 0 0 scenario_book))) =
     [(PARTIALLY_FILLED, 10)]"
  by (simp add: book_defs Let_def)

subsection \<open>C6: priority within a price level\<close>

lemma match_chain_nothing_left:
  "remaining \<le> 0 \<Longrightarrow> match_chain s t remaining orders = (t, orders)"
  by (cases orders) simp_all

text \<open>
  The walk starts at the head of the chain, where \<open>PriceLevel::add_order\<close> has put the
  newest order: when the head can take the whole quantity, no other order is touched.
\<close>

lemma match_chain_head_first:
  assumes "is_opposite_side (side newest) s" and "is_active newest"
    and "0 < q" and "q \<le> quantity newest"
  shows "match_chain s 0 q (newest # older) =
         (q, newest\<lparr>quantity := quantity newest - q,
                    status := (if quantity newest - q = 0 then FULLY_FILLED
                               else PARTIALLY_FILLED)\<rparr> # older)"
  using assms by (simp add: try_fill_def Let_def match_chain_nothing_left min_def)

lemma PriceLevel_add_order_head:
  "fst (PriceLevel_add_order ord lv) \<Longrightarrow> chain (snd (PriceLevel_add_order ord lv)) = ord # chain lv"
  by (simp add: PriceLevel_add_order_def split: if_splits)

text \<open>
  Claim C6. Within a price level the oldest \<open>ACTIVE\<close> or \<open>PARTIAL\<close> order is to be
  filled first. In a book with order 1 (sell 30 at 100) added before order 2 (sell 80 at
  100), a market buy of 50 takes all 50 from order 2, the newer one, and leaves order 1
  \<open>ACTIVE\<close> with its 30 untouched.
\<close>

theorem C6_newest_order_fills_first:
  "matched_quantity (fst (match_market_order BUY 50 0 0 same_price_book)) = 50 \<and>
   order_states 1 (ask_levels same_price_book) = [(ACTIVE, 30)] \<and>
   order_states 2 (ask_levels same_price_book) = [(ACTIVE, 80)] \<and>
   order_states 1 (ask_levels (snd (match_market_order BUY 50 0 0 same_price_book))) =
     [(ACTIVE, 30)] \<and>
   order_states 2 (ask_levels (snd (match_market_order BUY 50 0 0 same_price_book))) =
     [(PARTIALLY_FILLED, 30)]"
  by (simp add: book_defs Let_def)

subsection \<open>C8: the order state machine\<close>

text \<open>
  The two parts of the claim that hold for every order, as \<open>order_invariant\<close>: both
  \<open>try_fill\<close> and the cancellation of \<open>remove_order\<close> keep them.
\<close>

lemma new_Order_invariant: "order_invariant (new_Order oid sy s p q)"
  by (simp add: order_invariant_def new_Order_def)

lemma try_fill_invariant:
  "order_invariant ord \<Longrightarrow> order_invariant (snd (try_fill q ord))"
  by (auto simp add: order_invariant_def try_fill_def Let_def min_def)

lemma cancel_invariant:
  "order_invariant ord \<Longrightarrow> order_invariant (ord\<lparr>status := CANCELLED\<rparr>)"
  by (simp add: order_invariant_def)

text \<open>
  \<open>try_fill\<close> does not look at the status, and \<open>remove_order\<close> stores \<open>CANCELLED\<close>
  whatever the status was.
\<close>

lemma try_fill_status:
  "quantity ord > 0 \<Longrightarrow> q > 0 \<Longrightarrow>
   status (snd (try_fill q ord)) = (if q \<ge> quantity ord then FULLY_FILLED else PARTIALLY_FILLED)"
  by (auto simp add: try_fill_def Let_def min_def)

lemma cancel_in_chain_head:
  "cancel_in_chain (order_id ord) (ord # rest) =
     (Some (quantity ord), ord\<lparr>status := CANCELLED\<rparr> # rest)"
  by (simp add: get_remaining_quantity_def)

text \<open>
  Claim C8. For every order and every sequence of \<open>try_fill\<close> and cancel operations:
  remaining never exceeds original, \<open>FILLED\<close> implies remaining 0, \<open>CANCELLED\<close> is
  terminal, and the only transitions are \<open>ACTIVE\<close> to \<open>PARTIAL\<close>, \<open>FILLED\<close> or
  \<open>CANCELLED\<close> and \<open>PARTIAL\<close> to \<open>FILLED\<close> or \<open>CANCELLED\<close>. The code breaks the last
  two: order 1, filled completely by a market buy, goes from \<open>FULLY_FILLED\<close> to
  \<open>CANCELLED\<close> when \<open>cancel_order(1)\<close> is called, and the call returns true; and
  \<open>try_fill\<close> on a cancelled order that still has quantity makes it \<open>PARTIALLY_FILLED\<close>.
\<close>

theorem C8_filled_order_becomes_cancelled:
  "order_states 1 (ask_levels filled_book) = [(FULLY_FILLED, 0)] \<and>
   fst (cancel_order 1 filled_book) = True \<and>
   order_states 1 (ask_levels (snd (cancel_order 1 filled_book))) = [(CANCELLED, 0)] \<and>
   status (snd (try_fill 10 ((new_Order 1 ''AAPL'' SELL 100 30)\<lparr>status := CANCELLED\<rparr>))) =
     PARTIALLY_FILLED"
  by (simp add: book_defs Let_def)

section \<open>The ring buffer: claims C3 and C9\<close>

subsection \<open>Words and wrapped integers\<close>

lemma s64_id: "- (2 ^ 63) \<le> x \<Longrightarrow> x < 2 ^ 63 \<Longrightarrow> s64 x = x"
  by (simp add: s64_def)

lemma unat_pow: "k \<le> 62 \<Longrightarrow> unat (2 ^ k :: 64 word) = 2 ^ k"
proof -
  assume k: "k \<le> 62"
  have "(2::nat) ^ k < 2 ^ 64" using k by (intro power_strict_increasing) simp_all
  moreover have "(2 ^ k :: 64 word) = word_of_nat (2 ^ k)" by simp
  ultimately show ?thesis by (simp only: unat_of_nat) simp
qed

lemma uint_pow: "k \<le> 62 \<Longrightarrow> uint (2 ^ k :: 64 word) = 2 ^ k"
proof -
  assume k: "k \<le> 62"
  have "uint (2 ^ k :: 64 word) = int (unat (2 ^ k :: 64 word))" by (rule uint_nat)
  also have "\<dots> = 2 ^ k" by (simp only: unat_pow [OF k]) simp
  finally show ?thesis .
qed

lemma pow_and_mask: "((2 ^ k :: 64 word) AND (2 ^ k - 1)) = 0"
proof -
  have "(2 ^ k :: 64 word) AND mask k = 0"
    by (rule bit_eqI) (auto simp add: bit_simps)
  then show ?thesis by (simp add: mask_eq_exp_minus_1)
qed

lemma pow_ge2: "1 \<le> k \<Longrightarrow> k \<le> 62 \<Longrightarrow> \<not> (2 ^ k :: 64 word) < 2"
proof -
  assume k: "1 \<le> k" "k \<le> 62"
  have "(2::nat) ^ 1 \<le> 2 ^ k" using k(1) by (intro power_increasing) simp_all
  then show ?thesis using k by (simp add: word_less_nat_alt unat_pow)
qed

lemma slot_index_mod:
  assumes "buffer_mask q = 2 ^ k - 1" "0 \<le> s" "s < 2 ^ 63"
  shows "slot_index q s = nat s mod 2 ^ k"
proof -
  have "(word_of_int s :: 64 word) AND (2 ^ k - 1) = take_bit k (word_of_int s :: 64 word)"
    by (simp add: take_bit_eq_mask mask_eq_exp_minus_1)
  then have "slot_index q s = unat (take_bit k (word_of_int s :: 64 word))"
    by (simp add: slot_index_def assms(1))
  also have "\<dots> = take_bit k (unat (word_of_int s :: 64 word))"
    by (simp add: unsigned_take_bit_eq)
  also have "unat (word_of_int s :: 64 word) = nat s"
  proof -
    have "uint (word_of_int s :: 64 word) = take_bit 64 s" by (simp add: uint_word_of_int_eq)
    also have "\<dots> = s" using assms(2,3) by (simp add: take_bit_int_eq_self)
    finally show ?thesis by (simp add: unat_eq_nat_uint)
  qed
  finally show ?thesis by (simp add: take_bit_eq_mod)
qed

lemma length_pending [simp]: "length (pending k q) = nat (cursor q - consumer_sequence q)"
  by (simp add: pending_def)

lemma mod_distinct:
  fixes a b m :: nat
  assumes "a < b" "b - a < m"
  shows "a mod m \<noteq> b mod m"
proof
  assume "a mod m = b mod m"
  then have "(b - a) mod m = 0"
    using assms(1) by (metis mod_eq_dvd_iff_nat less_imp_le_nat mod_0_imp_dvd dvd_imp_mod_0)
  then show False using assms by (simp add: mod_less)
qed

lemma s64_window:
  fixes x m :: int
  assumes "m \<le> 2 ^ 62" "0 < m" "- 1 \<le> x" "x < 2 ^ 62"
  shows "s64 (x + 1 - m) = x + 1 - m"
  using assms by (intro s64_id) simp_all

lemma claim_not_full:
  assumes v: "valid_queue k q" and b: "cursor q < 2 ^ 62"
    and nf: "nat (cursor q - consumer_sequence q) < 2 ^ k"
  shows "claim_next_sequence q = (cursor q + 1, q\<lparr>cursor := cursor q + 1\<rparr>)"
proof -
  have k: "k \<le> 62" and c: "- 1 \<le> consumer_sequence q" "consumer_sequence q \<le> cursor q"
    and bs: "buffer_size (dq_config q) = 2 ^ k"
    using v by (simp_all add: valid_queue_def)
  have p2: "(2::int) ^ k \<le> 2 ^ 62" using k by (intro power_increasing) simp_all
  have n1: "s64 (cursor q + 1) = cursor q + 1" using b c by (intro s64_id) simp_all
  have "s64 ((2::int) ^ k) = 2 ^ k"
  proof (rule s64_id)
    show "- (2 ^ 63) \<le> (2::int) ^ k" by (rule order_trans [of _ 0]) simp_all
    show "(2::int) ^ k < 2 ^ 63" using p2 by simp
  qed
  then have u: "s64 (uint (buffer_size (dq_config q))) = 2 ^ k"
    by (simp add: bs uint_pow [OF k])
  have w: "s64 (cursor q + 1 - 2 ^ k) = cursor q + 1 - 2 ^ k"
    using b c by (intro s64_window p2) simp_all
  have "\<not> cursor q + 1 - 2 ^ k > consumer_sequence q"
    using nf c by (simp add: nat_less_iff)
  then show ?thesis
    by (simp add: claim_next_sequence_def Let_def n1 u w)
qed

lemma claim_full:
  assumes v: "valid_queue k q" and b: "cursor q < 2 ^ 62"
    and nf: "\<not> nat (cursor q - consumer_sequence q) < 2 ^ k"
  shows "claim_next_sequence q = (- 1, q)"
proof -
  have k: "k \<le> 62" and c: "- 1 \<le> consumer_sequence q" "consumer_sequence q \<le> cursor q"
    and bs: "buffer_size (dq_config q) = 2 ^ k"
    using v by (simp_all add: valid_queue_def)
  have p2: "(2::int) ^ k \<le> 2 ^ 62" using k by (intro power_increasing) simp_all
  have n1: "s64 (cursor q + 1) = cursor q + 1" using b c by (intro s64_id) simp_all
  have "s64 ((2::int) ^ k) = 2 ^ k"
  proof (rule s64_id)
    show "- (2 ^ 63) \<le> (2::int) ^ k" by (rule order_trans [of _ 0]) simp_all
    show "(2::int) ^ k < 2 ^ 63" using p2 by simp
  qed
  then have u: "s64 (uint (buffer_size (dq_config q))) = 2 ^ k"
    by (simp add: bs uint_pow [OF k])
  have w: "s64 (cursor q + 1 - 2 ^ k) = cursor q + 1 - 2 ^ k"
    using b c by (intro s64_window p2) simp_all
  have "cursor q + 1 - 2 ^ k > consumer_sequence q"
    using nf c by (simp add: nat_less_iff not_less)
  then show ?thesis
    by (simp add: claim_next_sequence_def Let_def n1 u w)
qed

subsection \<open>One call on a correctly sized queue\<close>

lemma mod_distinct_offset:
  fixes a i j m :: nat
  assumes "i < j" "j < m + i"
  shows "(a + i) mod m \<noteq> (a + j) mod m"
  by (rule mod_distinct) (use assms in simp_all)

lemma try_publish_full:
  assumes "valid_queue k q" "cursor q < 2 ^ 62" "\<not> length (pending k q) < 2 ^ k"
  shows "try_publish ev q = Inr (False, q)"
  using claim_full [OF assms(1,2)] assms(3) by (simp add: try_publish_def)

lemma try_publish_room:
  assumes v: "valid_queue k q" and b: "cursor q < 2 ^ 62"
    and nf: "length (pending k q) < 2 ^ k"
  shows "\<exists>q'. try_publish ev q = Inr (True, q') \<and> valid_queue k q' \<and>
              pending k q' = pending k q @ [ev] \<and> cursor q' = cursor q + 1 \<and>
              consumer_sequence q' = consumer_sequence q"
proof -
  let ?c = "consumer_sequence q" and ?p = "cursor q"
  let ?n = "nat (?p - ?c)"
  let ?i = "nat (?p + 1) mod 2 ^ k"
  let ?q' = "q\<lparr>cursor := ?p + 1, buffer := (buffer q)[?i := ev]\<rparr>"
  have k: "k \<le> 62" and c: "- 1 \<le> ?c" "?c \<le> ?p"
    and bm: "buffer_mask q = 2 ^ k - 1" and len: "length (buffer q) = 2 ^ k"
    using v by (simp_all add: valid_queue_def)
  have nf': "?n < 2 ^ k" using nf by simp
  have cl: "claim_next_sequence q = (?p + 1, q\<lparr>cursor := ?p + 1\<rparr>)"
    by (rule claim_not_full [OF v b nf'])
  have idx: "slot_index (q\<lparr>cursor := ?p + 1\<rparr>) (?p + 1) = ?i"
    using b c by (intro slot_index_mod) (simp_all add: bm)
  have il: "?i < length (buffer q)" by (simp add: len)
  have tp: "try_publish ev q = Inr (True, ?q')"
    using c il by (simp add: try_publish_def cl store_slot_def idx Let_def)
  have v': "valid_queue k ?q'"
    using v nf' by (simp add: valid_queue_def nat_less_iff) 
  have n': "nat (?p + 1 - ?c) = Suc ?n" using c by simp
  have e: "nat (?c + 1) + ?n = nat (?p + 1)" using c by simp
  have last: "(nat (?c + 1) + ?n) mod 2 ^ k = ?i"
    by (simp only: e)
  have other: "(buffer q)[?i := ev] ! ((nat (?c + 1) + i) mod 2 ^ k) =
               buffer q ! ((nat (?c + 1) + i) mod 2 ^ k)" if "i < ?n" for i
  proof -
    have "(nat (?c + 1) + i) mod 2 ^ k \<noteq> (nat (?c + 1) + ?n) mod 2 ^ k"
      by (rule mod_distinct_offset [OF that trans_less_add1 [OF nf']])
    then have "?i \<noteq> (nat (?c + 1) + i) mod 2 ^ k"
      unfolding e by (rule not_sym)
    then show ?thesis by (rule nth_list_update_neq)
  qed
  have pe: "pending k ?q' = pending k q @ [ev]"
    using il other by (simp add: pending_def n' last)
  show ?thesis using tp v' pe by (intro exI [of _ ?q']) simp
qed

lemma try_consume_empty:
  assumes "valid_queue k q" "cursor q < 2 ^ 62" "pending k q = []"
  shows "try_consume q = Inr (None, q)"
proof -
  have c: "- 1 \<le> consumer_sequence q" "consumer_sequence q \<le> cursor q"
    using assms(1) by (simp_all add: valid_queue_def)
  have e: "cursor q = consumer_sequence q" using assms(3) c by (simp add: pending_def)
  have "s64 (consumer_sequence q + 1) = consumer_sequence q + 1"
    using c assms(2) by (intro s64_id) simp_all
  then show ?thesis using c by (simp add: try_consume_def try_wait_for_def Let_def e)
qed

lemma try_consume_some:
  assumes v: "valid_queue k q" and b: "cursor q < 2 ^ 62" and pe: "pending k q = x # xs"
  shows "\<exists>q'. try_consume q = Inr (x, q') \<and> valid_queue k q' \<and> pending k q' = xs \<and>
              cursor q' = cursor q \<and> consumer_sequence q' = consumer_sequence q + 1"
proof -
  let ?c = "consumer_sequence q" and ?p = "cursor q"
  let ?n = "nat (?p - ?c)"
  let ?i = "nat (?c + 1) mod 2 ^ k"
  let ?q' = "q\<lparr>buffer := (buffer q)[?i := None], consumer_sequence := ?c + 1\<rparr>"
  have k: "k \<le> 62" and c: "- 1 \<le> ?c" "?c \<le> ?p" and w: "?p - ?c \<le> 2 ^ k"
    and bm: "buffer_mask q = 2 ^ k - 1" and len: "length (buffer q) = 2 ^ k"
    using v by (simp_all add: valid_queue_def)
  have n: "?n = Suc (length xs)" using pe length_pending [of k q] by simp
  then have lt: "?c < ?p" by linarith
  have s: "s64 (?c + 1) = ?c + 1" using c b by (intro s64_id) simp_all
  have idx: "slot_index q (?c + 1) = ?i"
    using b c by (intro slot_index_mod) (simp_all add: bm)
  have il: "?i < length (buffer q)" by (simp add: len)
  have "pending k q = map (\<lambda>i. buffer q ! ((nat (?c + 1) + i) mod 2 ^ k)) [0..<Suc (length xs)]"
    by (simp add: pending_def n)
  also have "\<dots> = buffer q ! ?i # map (\<lambda>i. buffer q ! ((nat (?c + 1) + Suc i) mod 2 ^ k)) [0..<length xs]"
    by (simp add: upt_conv_Cons map_Suc_upt [symmetric] del: upt_Suc)
  finally have hd_tl: "x = buffer q ! ?i"
       "xs = map (\<lambda>i. buffer q ! ((nat (?c + 1) + Suc i) mod 2 ^ k)) [0..<length xs]"
    using pe by simp_all
  have x: "buffer q ! ?i = x" using hd_tl(1) by simp
  have tc: "try_consume q = Inr (x, ?q')"
    using lt il by (simp add: try_consume_def try_wait_for_def Let_def s idx x)
  have v': "valid_queue k ?q'"
    using v lt by (simp add: valid_queue_def)
  have nk: "?n \<le> 2 ^ k" using w c by (simp add: nat_le_iff)
  have n': "nat (?p - (?c + 1)) = length xs" using n by simp
  have other: "(buffer q)[?i := None] ! ((nat (?c + 1 + 1) + i) mod 2 ^ k) =
               buffer q ! ((nat (?c + 1) + Suc i) mod 2 ^ k)" if "i < length xs" for i
  proof -
    have e: "nat (?c + 1 + 1) + i = nat (?c + 1) + Suc i" using c by simp
    have "Suc i < 2 ^ k + 0" using that n nk by simp
    then have "(nat (?c + 1) + 0) mod 2 ^ k \<noteq> (nat (?c + 1) + Suc i) mod 2 ^ k"
      by (intro mod_distinct_offset) simp_all
    then have "?i \<noteq> (nat (?c + 1) + Suc i) mod 2 ^ k" by simp
    then show ?thesis unfolding e by (rule nth_list_update_neq)
  qed
  note hd_tl(2)
  moreover have "pending k ?q' = map (\<lambda>i. buffer q ! ((nat (?c + 1) + Suc i) mod 2 ^ k)) [0..<length xs]"
    using other by (simp add: pending_def n')
  ultimately have pe': "pending k ?q' = xs" by simp
  show ?thesis using tc v' pe' by (intro exI [of _ ?q']) simp
qed

subsection \<open>A schedule of calls refines the bounded queue\<close>

lemma run_queue_refines:
  assumes "valid_queue k q" "cursor q + int (length ops) < 2 ^ 62"
  shows "\<exists>q'. run_queue ops q = Inr (fst (fifo_spec (2 ^ k) ops (pending k q)), q') \<and>
              valid_queue k q' \<and>
              pending k q' = snd (fifo_spec (2 ^ k) ops (pending k q)) \<and>
              cursor q' = cursor q + int (publish_count (fst (fifo_spec (2 ^ k) ops (pending k q))))"
  using assms
proof (induction ops arbitrary: q)
  case Nil
  then show ?case by (simp add: publish_count_def)
next
  case (Cons a ops)
  have b: "cursor q < 2 ^ 62" using Cons.prems(2) by simp
  show ?case
  proof (cases a)
    case (Publish ev)
    show ?thesis
    proof (cases "length (pending k q) < 2 ^ k")
      case True
      from try_publish_room [OF Cons.prems(1) b True, of ev] obtain q1 where
        q1: "try_publish ev q = Inr (True, q1)" "valid_queue k q1"
            "pending k q1 = pending k q @ [ev]" "cursor q1 = cursor q + 1"
        by blast
      have "cursor q1 + int (length ops) < 2 ^ 62" using Cons.prems(2) q1(4) by simp
      from Cons.IH [OF q1(2) this] obtain q' where
        q': "run_queue ops q1 = Inr (fst (fifo_spec (2 ^ k) ops (pending k q1)), q')"
            "valid_queue k q'"
            "pending k q' = snd (fifo_spec (2 ^ k) ops (pending k q1))"
            "cursor q' = cursor q1 + int (publish_count (fst (fifo_spec (2 ^ k) ops (pending k q1))))"
        by blast
      show ?thesis
        using True q1 q' Publish
        by (intro exI [of _ q']) (simp add: split_beta publish_count_def del: length_pending)
    next
      case False
      have tp: "try_publish ev q = Inr (False, q)"
        by (rule try_publish_full [OF Cons.prems(1) b False])
      have "cursor q + int (length ops) < 2 ^ 62" using Cons.prems(2) by simp
      from Cons.IH [OF Cons.prems(1) this] obtain q' where
        q': "run_queue ops q = Inr (fst (fifo_spec (2 ^ k) ops (pending k q)), q')"
            "valid_queue k q'"
            "pending k q' = snd (fifo_spec (2 ^ k) ops (pending k q))"
            "cursor q' = cursor q + int (publish_count (fst (fifo_spec (2 ^ k) ops (pending k q))))"
        by blast
      show ?thesis
        using False tp q' Publish
        by (intro exI [of _ q']) (simp add: split_beta publish_count_def del: length_pending)
    qed
  next
    case Consume
    show ?thesis
    proof (cases "pending k q")
      case Nil
      have tc: "try_consume q = Inr (None, q)"
        by (rule try_consume_empty [OF Cons.prems(1) b Nil])
      have "cursor q + int (length ops) < 2 ^ 62" using Cons.prems(2) by simp
      from Cons.IH [OF Cons.prems(1) this] obtain q' where
        q': "run_queue ops q = Inr (fst (fifo_spec (2 ^ k) ops (pending k q)), q')"
            "valid_queue k q'"
            "pending k q' = snd (fifo_spec (2 ^ k) ops (pending k q))"
            "cursor q' = cursor q + int (publish_count (fst (fifo_spec (2 ^ k) ops (pending k q))))"
        by blast
      show ?thesis
        using Nil tc q' Consume
        by (intro exI [of _ q']) (simp add: split_beta publish_count_def)
    next
      case (Cons x xs)
      from try_consume_some [OF Cons.prems(1) b Cons] obtain q1 where
        q1: "try_consume q = Inr (x, q1)" "valid_queue k q1" "pending k q1 = xs"
            "cursor q1 = cursor q"
        by blast
      have "cursor q1 + int (length ops) < 2 ^ 62" using Cons.prems(2) q1(4) by simp
      from Cons.IH [OF q1(2) this] obtain q' where
        q': "run_queue ops q1 = Inr (fst (fifo_spec (2 ^ k) ops (pending k q1)), q')"
            "valid_queue k q'"
            "pending k q' = snd (fifo_spec (2 ^ k) ops (pending k q1))"
            "cursor q' = cursor q1 + int (publish_count (fst (fifo_spec (2 ^ k) ops (pending k q1))))"
        by blast
      show ?thesis
        using Cons q1 q' Consume
        by (intro exI [of _ q']) (simp add: split_beta publish_count_def)
    qed
  qed
qed

lemma fifo_spec_conservation:
  assumes "publishes_nonnull ops" "None \<notin> set pend"
  shows "map Some (consumed_events (fst (fifo_spec cap ops pend))) @ snd (fifo_spec cap ops pend) =
           pend @ map Some (published_events ops (fst (fifo_spec cap ops pend))) \<and>
         None \<notin> set (snd (fifo_spec cap ops pend))"
  using assms
proof (induction ops arbitrary: pend)
  case Nil
  then show ?case by simp
next
  case (Cons a ops)
  show ?case
  proof (cases a)
    case (Publish ev)
    then obtain e where ev: "ev = Some e" and nn: "publishes_nonnull ops"
      using Cons.prems(1) by auto
    show ?thesis
    proof (cases "length pend < cap")
      case True
      have "None \<notin> set (pend @ [ev])" using Cons.prems(2) ev by simp
      from Cons.IH [OF nn this] show ?thesis
        using True Publish ev by (simp add: split_beta)
    next
      case False
      from Cons.IH [OF nn Cons.prems(2)] show ?thesis
        using False Publish ev by (simp add: split_beta)
    qed
  next
    case Consume
    then have nn: "publishes_nonnull ops" using Cons.prems(1) by simp
    show ?thesis
    proof (cases pend)
      case Nil
      from Cons.IH [OF nn, of "[]"] show ?thesis
        using Nil Consume by (simp add: split_beta)
    next
      case (Cons x xs)
      then obtain e where x: "x = Some e" and xs: "None \<notin> set xs"
        using Cons.prems(2) by (cases x) auto
      from Cons.IH [OF nn xs] show ?thesis
        using Cons Consume x by (simp add: split_beta)
    qed
  qed
qed

lemma fifo_spec_append:
  "fifo_spec cap (a @ b) pend =
     (fst (fifo_spec cap a pend) @ fst (fifo_spec cap b (snd (fifo_spec cap a pend))),
      snd (fifo_spec cap b (snd (fifo_spec cap a pend))))"
proof (induction a arbitrary: pend)
  case Nil
  show ?case by simp
next
  case (Cons x a)
  show ?case by (cases x) (simp_all add: Cons split_beta split: list.splits)
qed

lemma consumed_events_append:
  "consumed_events (a @ b) = consumed_events a @ consumed_events b"
  by (induction a rule: consumed_events.induct) simp_all

lemma fifo_spec_pending_length:
  "length (snd (fifo_spec cap ops pend)) \<le> length pend + length ops"
proof (induction ops arbitrary: pend)
  case Nil
  show ?case by simp
next
  case (Cons a ops)
  show ?case
  proof (cases a)
    case (Publish ev)
    show ?thesis using Cons [of "pend @ [ev]"] Cons [of pend] Publish
      by (simp add: split_beta)
  next
    case Consume
    show ?thesis
    proof (cases pend)
      case Nil
      then show ?thesis using Cons [of "[]"] Consume by (simp add: split_beta)
    next
      case (Cons x xs)
      then show ?thesis using Cons.IH [of xs] Consume by (simp add: split_beta)
    qed
  qed
qed

lemma fifo_spec_drain:
  assumes "None \<notin> set pend" "length pend \<le> n"
  shows "map Some (consumed_events (fst (fifo_spec cap (replicate n Consume) pend))) = pend"
  using assms
proof (induction n arbitrary: pend)
  case 0
  then show ?case by simp
next
  case (Suc n)
  show ?case
  proof (cases pend)
    case Nil
    then show ?thesis using Suc.IH [of "[]"] by (simp add: split_beta)
  next
    case (Cons x xs)
    then obtain e where x: "x = Some e" using Suc.prems(1) by (cases x) auto
    have "None \<notin> set xs" "length xs \<le> n" using Suc.prems Cons by simp_all
    from Suc.IH [OF this] show ?thesis using Cons x by (simp add: split_beta)
  qed
qed

lemma fifo_spec_keeps_pace:
  "keeps_pace cap (length pend) ops \<Longrightarrow> Published False \<notin> set (fst (fifo_spec cap ops pend))"
proof (induction ops arbitrary: pend)
  case Nil
  show ?case by simp
next
  case (Cons a ops)
  show ?case
  proof (cases a)
    case (Publish ev)
    then show ?thesis using Cons.IH [of "pend @ [ev]"] Cons.prems by (simp add: split_beta)
  next
    case Consume
    show ?thesis
    proof (cases pend)
      case Nil
      then show ?thesis using Cons.IH [of "[]"] Cons.prems Consume by (simp add: split_beta)
    next
      case (Cons x xs)
      then show ?thesis using Cons.IH [of xs] Cons.prems Consume by (simp add: split_beta)
    qed
  qed
qed

lemma fifo_spec_publish_count:
  "publishes_nonnull ops \<Longrightarrow>
   length (published_events ops (fst (fifo_spec cap ops pend))) =
   publish_count (fst (fifo_spec cap ops pend))"
proof (induction ops arbitrary: pend)
  case Nil
  show ?case by (simp add: publish_count_def)
next
  case (Cons a ops)
  show ?case
  proof (cases a)
    case (Publish ev)
    then obtain e where ev: "ev = Some e" and nn: "publishes_nonnull ops"
      using Cons.prems by auto
    show ?thesis using Cons.IH [OF nn, of "pend @ [ev]"] Cons.IH [OF nn, of pend] Publish ev
      by (simp add: split_beta publish_count_def)
  next
    case Consume
    then have nn: "publishes_nonnull ops" using Cons.prems by simp
    show ?thesis
    proof (cases pend)
      case Nil
      then show ?thesis using Cons.IH [OF nn, of "[]"] Consume
        by (simp add: split_beta publish_count_def)
    next
      case (Cons x xs)
      then show ?thesis using Cons.IH [OF nn, of xs] Consume
        by (simp add: split_beta publish_count_def)
    qed
  qed
qed

subsection \<open>Construction and the stress schedule\<close>

lemma new_DisruptorQueue_valid:
  assumes "1 \<le> k" "k \<le> 62" "buffer_size c = 2 ^ k"
  shows "\<exists>q0. new_DisruptorQueue c = Some q0 \<and> valid_queue k q0 \<and> pending k q0 = [] \<and>
               cursor q0 = - 1 \<and> consumer_sequence q0 = - 1 \<and> capacity q0 = 2 ^ k"
proof -
  have v: "DisruptorConfig_validate c = Some c"
    using pow_ge2 [OF assms(1,2)]
    by (simp add: DisruptorConfig_validate_def assms(3) pow_and_mask Let_def)
  let ?q0 = "\<lparr>dq_config = c, buffer_mask = 2 ^ k - 1,
              buffer = replicate (2 ^ k) None, cursor = - 1, consumer_sequence = - 1\<rparr>
             :: 'a DisruptorQueue"
  have "new_DisruptorQueue c = Some ?q0"
    by (simp add: new_DisruptorQueue_def v Let_def assms(3) unat_pow [OF assms(2)])
  moreover have "valid_queue k ?q0"
    using assms by (simp add: valid_queue_def)
  moreover have "pending k ?q0 = []" by (simp add: pending_def)
  ultimately show ?thesis
    by (intro exI [of _ ?q0]) (simp add: capacity_def assms(3))
qed

lemma stress_schedule_Suc:
  "stress_schedule (Suc n) = stress_schedule n @ [Publish (Some n), Consume]"
  by (simp add: stress_schedule_def)

lemma stress_results_Suc:
  "stress_results (Suc n) = stress_results n @ [Published True, Consumed (Some n)]"
  by (simp add: stress_results_def)

lemma stress_fifo:
  "1 \<le> cap \<Longrightarrow> fifo_spec cap (stress_schedule n) [] = (stress_results n, [])"
proof (induction n)
  case 0
  show ?case by (simp add: stress_schedule_def stress_results_def)
next
  case (Suc n)
  then show ?case
    by (simp add: stress_schedule_Suc stress_results_Suc fifo_spec_append)
qed

lemma stress_consumed: "consumed_events (stress_results n) = [0..<n]"
  by (induction n) (simp_all add: stress_results_Suc consumed_events_append, simp add: stress_results_def)

lemma stress_no_failure: "Published False \<notin> set (stress_results n)"
  by (induction n) (simp_all add: stress_results_Suc, simp add: stress_results_def)

lemma stress_publish_count: "publish_count (stress_results n) = n"
  by (induction n) (simp_all add: stress_results_Suc publish_count_def, simp add: stress_results_def)

lemma stress_length: "length (stress_schedule n) = 2 * n"
  by (induction n) (simp_all add: stress_schedule_Suc, simp add: stress_schedule_def)

lemma stress_run:
  assumes "1 \<le> k" "k \<le> 62" "buffer_size c = 2 ^ k" "2 * int n < 2 ^ 62"
  shows "\<exists>q0 rs q. new_DisruptorQueue c = Some q0 \<and>
           run_queue (stress_schedule n) q0 = Inr (rs, q) \<and>
           Published False \<notin> set rs \<and> consumed_events rs = [0..<n] \<and>
           cursor q = int n - 1 \<and> consumer_sequence q = int n - 1"
proof -
  from new_DisruptorQueue_valid [OF assms(1-3)] obtain q0 :: "nat DisruptorQueue" where
    q0: "new_DisruptorQueue c = Some q0" "valid_queue k q0" "pending k q0 = []"
        "cursor q0 = - 1"
    by blast
  have cap: "1 \<le> (2::nat) ^ k" by simp
  have b: "cursor q0 + int (length (stress_schedule n)) < 2 ^ 62"
    using assms(4) by (simp add: q0(4) stress_length)
  from run_queue_refines [OF q0(2) b] obtain q where
    q: "run_queue (stress_schedule n) q0 = Inr (stress_results n, q)"
       "valid_queue k q" "pending k q = []"
       "cursor q = cursor q0 + int (publish_count (stress_results n))"
    unfolding q0(3) stress_fifo [OF cap] by auto
  have c: "cursor q = int n - 1" using q(4) by (simp add: q0(4) stress_publish_count)
  have "consumer_sequence q = cursor q"
    using q(2,3) length_pending [of k q] by (simp add: valid_queue_def)
  then show ?thesis
    using q0(1) q(1) c stress_no_failure stress_consumed
    by (intro exI [of _ q0] exI [of _ "stress_results n"] exI [of _ q]) simp
qed

lemma stress_instance:
  "\<exists>q0 rs q. new_DisruptorQueue stress_config = Some q0 \<and>
     run_queue (stress_schedule 1000000) q0 = Inr (rs, q) \<and>
     Published False \<notin> set rs \<and> consumed_events rs = [0..<1000000] \<and>
     cursor q = 999999 \<and> consumer_sequence q = 999999"
proof -
  have h: "buffer_size stress_config = 2 ^ 10"
    by (simp add: stress_config_def)
  have n: "int 1000000 - 1 = 999999" by simp
  have "(1::nat) \<le> 10" "(10::nat) \<le> 62" "2 * int 1000000 < 2 ^ 62" by simp_all
  from stress_run [OF this(1,2) h this(3)] show ?thesis
    unfolding n .
qed

lemma map_Some_the: "None \<notin> set xs \<Longrightarrow> xs = map Some (map the xs)"
  by (induction xs) auto

lemma replicate_2: "replicate 2 x = [x, x]"
  by (simp add: numeral_2_eq_2)


subsection \<open>Whole calls: delivery exactly once, in publish order\<close>

text \<open>
  Take a queue built for a capacity \<open>2 ^ k\<close> and any schedule of \<open>try_publish\<close> and
  \<open>try_consume\<close> calls in which each call ends before the next one starts, that
  publishes events (not null pointers) and is short enough for the 64-bit sequences
  not to wrap. Then no call fails; the events the consumes return are a prefix
  of the events published successfully, in publish order; when the consumer goes on
  calling \<open>try_consume\<close>, the consumes return exactly the published events, each once;
  the cursor is the number of successful publishes minus 1 and the consumer sequence the
  number of events consumed minus 1; and when the consumer keeps pace, no publish
  fails. In particular, publishing and consuming 1,000,000 events through a capacity-1024
  buffer, no publish fails, the events come out in publish order, and cursor and
  consumer sequence both end at 999,999.
\<close>

lemma whole_calls_exactly_once_in_order:
  assumes "1 \<le> k" and "k \<le> 62" and "buffer_size c = 2 ^ k"
    and "publishes_nonnull ops" and "2 * int (length ops) < 2 ^ 62"
  shows "(\<exists>q0 rs q. new_DisruptorQueue c = Some q0 \<and> capacity q0 = 2 ^ k \<and>
            run_queue ops q0 = Inr (rs, q) \<and>
            prefix (consumed_events rs) (published_events ops rs) \<and>
            (\<exists>rs' q'. run_queue (ops @ replicate (length ops) Consume) q0 = Inr (rs', q') \<and>
                       consumed_events rs' = published_events ops rs) \<and>
            cursor q = int (length (published_events ops rs)) - 1 \<and>
            consumer_sequence q = int (length (consumed_events rs)) - 1 \<and>
            (keeps_pace (2 ^ k) 0 ops \<longrightarrow> Published False \<notin> set rs)) \<and>
         (\<exists>q0 rs q. new_DisruptorQueue stress_config = Some q0 \<and>
            run_queue (stress_schedule 1000000) q0 = Inr (rs, q) \<and>
            Published False \<notin> set rs \<and> consumed_events rs = [0..<1000000] \<and>
            cursor q = 999999 \<and> consumer_sequence q = 999999)"
proof (rule conjI [OF _ stress_instance])
  from new_DisruptorQueue_valid [OF assms(1-3)] obtain q0 :: "'a DisruptorQueue" where
    q0: "new_DisruptorQueue c = Some q0" "valid_queue k q0" "pending k q0 = []"
        "cursor q0 = - 1" "capacity q0 = 2 ^ k"
    by blast
  let ?cap = "(2::nat) ^ k"
  let ?rs = "fst (fifo_spec ?cap ops [])" and ?pend = "snd (fifo_spec ?cap ops [])"
  let ?drain = "replicate (length ops) Consume :: 'a queue_op list"
  have b: "cursor q0 + int (length ops) < 2 ^ 62"
    using assms(5) by (simp add: q0(4))
  from run_queue_refines [OF q0(2) b] obtain q where
    q: "run_queue ops q0 = Inr (?rs, q)" "valid_queue k q" "pending k q = ?pend"
       "cursor q = cursor q0 + int (publish_count ?rs)"
    unfolding q0(3) by blast
  have cons: "map Some (consumed_events ?rs) @ ?pend = map Some (published_events ops ?rs)"
    and nn: "None \<notin> set ?pend"
    using fifo_spec_conservation [OF assms(4), of "[]" ?cap] by simp_all
  have pend: "map Some (map the ?pend) = ?pend"
    by (rule map_Some_the [OF nn, symmetric])
  have "map Some (consumed_events ?rs @ map the ?pend) = map Some (published_events ops ?rs)"
    unfolding map_append pend by (rule cons)
  then have "consumed_events ?rs @ map the ?pend = published_events ops ?rs"
    by (rule map_injective) simp
  then have split: "published_events ops ?rs = consumed_events ?rs @ map the ?pend"
    by (rule sym)
  then have pre: "prefix (consumed_events ?rs) (published_events ops ?rs)"
    by (simp add: prefix_def)
  have b': "cursor q0 + int (length (ops @ ?drain)) < 2 ^ 62"
    using assms(5) by (simp add: q0(4))
  from run_queue_refines [OF q0(2) b'] obtain q' where
    q': "run_queue (ops @ ?drain) q0 = Inr (fst (fifo_spec ?cap (ops @ ?drain) []), q')"
    unfolding q0(3) by blast
  have pl: "length ?pend \<le> length ops"
    using fifo_spec_pending_length [of ?cap ops "[]"] by simp
  have "map Some (consumed_events (fst (fifo_spec ?cap (ops @ ?drain) []))) =
        map Some (consumed_events ?rs) @ ?pend"
    by (simp add: fifo_spec_append consumed_events_append fifo_spec_drain [OF nn pl])
  then have drained: "consumed_events (fst (fifo_spec ?cap (ops @ ?drain) [])) =
        published_events ops ?rs"
    unfolding cons by (rule map_injective) simp
  have cur: "cursor q = int (length (published_events ops ?rs)) - 1"
    using q(4) by (simp add: q0(4) fifo_spec_publish_count [OF assms(4)])
  have "consumer_sequence q \<le> cursor q" using q(2) by (simp add: valid_queue_def)
  moreover have "nat (cursor q - consumer_sequence q) = length ?pend"
    using length_pending [of k q] by (simp only: q(3))
  moreover have "length (published_events ops ?rs) = length (consumed_events ?rs) + length ?pend"
    using split by simp
  ultimately have con: "consumer_sequence q = int (length (consumed_events ?rs)) - 1"
    using cur by linarith
  have pace: "keeps_pace ?cap 0 ops \<longrightarrow> Published False \<notin> set ?rs"
    using fifo_spec_keeps_pace [of ?cap "[]" ops] by simp
  show "\<exists>q0 rs q. new_DisruptorQueue c = Some q0 \<and> capacity q0 = 2 ^ k \<and>
            run_queue ops q0 = Inr (rs, q) \<and>
            prefix (consumed_events rs) (published_events ops rs) \<and>
            (\<exists>rs' q'. run_queue (ops @ replicate (length ops) Consume) q0 = Inr (rs', q') \<and>
                       consumed_events rs' = published_events ops rs) \<and>
            cursor q = int (length (published_events ops rs)) - 1 \<and>
            consumer_sequence q = int (length (consumed_events rs)) - 1 \<and>
            (keeps_pace (2 ^ k) 0 ops \<longrightarrow> Published False \<notin> set rs)"
    using q0(1,5) q(1) pre q' drained cur con pace
    by (intro exI [of _ q0] exI [of _ ?rs] exI [of _ q]) blast
qed

lemma whole_calls_exactly_once_in_order_instance:
  "\<exists>q0 rs q. new_DisruptorQueue two_slot_config = Some q0 \<and> capacity q0 = 2 \<and>
      run_queue small_schedule q0 = Inr (rs, q) \<and>
      rs = [Published True, Published True, Consumed (Some 1), Published True,
            Consumed (Some 2), Consumed (Some 3)] \<and>
      prefix (consumed_events rs) (published_events small_schedule rs) \<and>
      cursor q = 2 \<and> consumer_sequence q = 2 \<and> Published False \<notin> set rs"
proof -
  have h1: "(1::nat) \<le> 1" and h2: "(1::nat) \<le> 62" by simp_all
  have h3: "buffer_size two_slot_config = 2 ^ 1"
    by (simp add: two_slot_config_def)
  have h4: "publishes_nonnull small_schedule"
    by (simp add: small_schedule_def)
  have h5: "2 * int (length small_schedule) < 2 ^ 62"
    by (simp add: small_schedule_def)
  have h6: "keeps_pace (2 ^ 1) 0 small_schedule"
    by (simp add: small_schedule_def)
  from whole_calls_exactly_once_in_order [OF h1 h2 h3 h4 h5] obtain q0 rs q where
    r: "new_DisruptorQueue two_slot_config = Some q0" "capacity q0 = 2 ^ 1"
       "run_queue small_schedule q0 = Inr (rs, q)"
       "prefix (consumed_events rs) (published_events small_schedule rs)"
       "cursor q = int (length (published_events small_schedule rs)) - 1"
       "consumer_sequence q = int (length (consumed_events rs)) - 1"
       "keeps_pace (2 ^ 1) 0 small_schedule \<longrightarrow> Published False \<notin> set rs"
    by blast
  have q0: "q0 = \<lparr>dq_config = two_slot_config, buffer_mask = 1, buffer = [None, None],
                  cursor = - 1, consumer_sequence = - 1\<rparr>"
    using r(1)
    by (simp add: new_DisruptorQueue_def DisruptorConfig_validate_def two_slot_config_def
          default_DisruptorConfig_def Let_def replicate_2)
  have rs: "rs = [Published True, Published True, Consumed (Some 1), Published True,
                  Consumed (Some 2), Consumed (Some 3)]"
    using r(3) unfolding q0
    by (simp add: small_schedule_def try_publish_def claim_next_sequence_def store_slot_def
          slot_index_def s64_def try_consume_def try_wait_for_def Let_def two_slot_config_def
          default_DisruptorConfig_def)
  show ?thesis
    using r h6 rs
    by (intro exI [of _ q0] exI [of _ rs] exI [of _ q]) (simp add: small_schedule_def)
qed

subsection \<open>C3: a consumer between the claim and the store\<close>

text \<open>
  \<open>claim_next_sequence\<close> moves the cursor, and the cursor is what \<open>try_consume\<close>
  reads through the barrier: from the claim on, the consumer takes the sequence for
  published, while its slot is written only afterwards. On a correctly sized queue with
  nothing pending, a \<open>try_consume\<close> that runs between the two steps returns what the
  slot held before, and the queue is empty again once the event is stored: the event is
  in its slot and is not pending, so no later consume returns it.
\<close>

lemma overtaken_on_empty_queue:
  assumes v: "valid_queue k q" and b: "cursor q + 1 < 2 ^ 62" and e: "pending k q = []"
  shows "\<exists>q'. try_publish_overtaken ev q =
                 Inr (True, buffer q ! (nat (cursor q + 1) mod 2 ^ k), q') \<and>
              valid_queue k q' \<and> pending k q' = [] \<and> cursor q' = cursor q + 1 \<and>
              buffer q' ! (nat (cursor q + 1) mod 2 ^ k) = ev"
proof -
  let ?p = "cursor q"
  let ?i = "nat (?p + 1) mod 2 ^ k"
  let ?q1 = "q\<lparr>cursor := ?p + 1\<rparr>"
  have k: "1 \<le> k" and c: "- 1 \<le> consumer_sequence q" "consumer_sequence q \<le> ?p"
    using v by (simp_all add: valid_queue_def)
  have ceq: "consumer_sequence q = ?p"
    using e c by (simp add: pending_def)
  have b0: "?p < 2 ^ 62" using b by simp
  have two: "(2::int) \<le> 2 ^ k"
    using power_increasing [of 1 k "2::int"] k by simp
  have cl: "claim_next_sequence q = (?p + 1, ?q1)"
    by (rule claim_not_full [OF v b0]) (simp add: ceq)
  have v1: "valid_queue k ?q1"
    using v two by (simp add: valid_queue_def ceq)
  have p1: "pending k ?q1 = buffer q ! ?i # []"
    by (simp add: pending_def ceq)
  have b1: "cursor ?q1 < 2 ^ 62" using b by simp
  from try_consume_some [OF v1 b1 p1] obtain q2 where
    q2: "try_consume ?q1 = Inr (buffer q ! ?i, q2)" "valid_queue k q2" "pending k q2 = []"
        "cursor q2 = ?p + 1" "consumer_sequence q2 = ?p + 1"
    by (auto simp add: ceq)
  let ?q3 = "q2\<lparr>buffer := (buffer q2)[?i := ev]\<rparr>"
  have bm: "buffer_mask q2 = 2 ^ k - 1" and len: "length (buffer q2) = 2 ^ k"
    using q2(2) by (simp_all add: valid_queue_def)
  have idx: "slot_index q2 (?p + 1) = ?i"
    using b c ceq by (intro slot_index_mod) (simp_all add: bm)
  have il: "?i < length (buffer q2)" by (simp add: len)
  have st: "store_slot (?p + 1) ev q2 = Inr ?q3"
    using il by (simp add: store_slot_def idx Let_def)
  have neg: "\<not> ?p + 1 < 0" using c ceq by simp
  have tp: "try_publish_overtaken ev q = Inr (True, buffer q ! ?i, ?q3)"
    using neg by (simp add: try_publish_overtaken_def cl q2(1) st)
  have v3: "valid_queue k ?q3"
    using q2(2) by (simp add: valid_queue_def)
  have p3: "pending k ?q3 = []"
    by (simp add: pending_def q2(4,5))
  have at: "buffer ?q3 ! ?i = ev" using il by simp
  show ?thesis
    using tp v3 p3 at q2(4) by (intro exI [of _ ?q3]) simp
qed

lemma overtaken_event_never_consumed:
  assumes "valid_queue k q" and "cursor q + 1 < 2 ^ 62" and "pending k q = []"
  shows "\<exists>seen q'. try_publish_overtaken ev q = Inr (True, seen, q') \<and>
                   try_consume q' = Inr (None, q')"
proof -
  from overtaken_on_empty_queue [OF assms] obtain q' where
    q': "try_publish_overtaken ev q =
           Inr (True, buffer q ! (nat (cursor q + 1) mod 2 ^ k), q')"
        "valid_queue k q'" "pending k q' = []" "cursor q' = cursor q + 1"
    by blast
  have "cursor q' < 2 ^ 62" using assms(2) q'(4) by simp
  from try_consume_empty [OF q'(2) this q'(3)] q'(1) show ?thesis by blast
qed

lemmas queue_defs =
  two_slot_queue_def two_slot_config_def default_DisruptorConfig_def
  try_publish_def try_publish_overtaken_def claim_next_sequence_def store_slot_def
  slot_index_def s64_def try_consume_def try_wait_for_def Let_def

lemma two_slot_new:
  "new_DisruptorQueue two_slot_config = Some (two_slot_queue [None, None] (- 1) (- 1))"
  by (simp add: new_DisruptorQueue_def DisruptorConfig_validate_def two_slot_queue_def
      two_slot_config_def default_DisruptorConfig_def Let_def replicate_2)

lemma two_slot_overtaken:
  "try_publish_overtaken (Some 10) (two_slot_queue [None, None] (- 1) (- 1)) =
     Inr (True, None, two_slot_queue [Some 10, None] 0 0)"
  by (simp add: queue_defs)

lemma two_slot_looks_empty:
  "try_consume (two_slot_queue [Some 10, None] 0 0) =
     Inr (None, two_slot_queue [Some 10, None] 0 0)"
  by (simp add: queue_defs)

lemma two_slot_second_publish:
  "try_publish (Some 20) (two_slot_queue [Some 10, None] 0 0) =
     Inr (True, two_slot_queue [Some 10, Some 20] 1 0)"
  by (simp add: queue_defs)

lemma two_slot_second_consume:
  "try_consume (two_slot_queue [Some 10, Some 20] 1 0) =
     Inr (Some 20, two_slot_queue [Some 10, None] 1 1)"
  by (simp add: queue_defs)

lemma two_slot_drained:
  "try_consume (two_slot_queue [Some 10, None] 1 1) =
     Inr (None, two_slot_queue [Some 10, None] 1 1)"
  by (simp add: queue_defs)

text \<open>
  Claim C3. With one producer and one consumer, every event that \<open>try_publish\<close> has
  published with success is to be returned by exactly one later consume, and the events
  are to come out in publish order. On a queue of capacity 2 the producer calls
  \<open>try_publish(10)\<close> and the consumer calls \<open>try_consume\<close> after the producer's
  claim and before its store: the producer's call returns true, the consumer's call
  returns \<open>nullptr\<close> and moves the consumer sequence to 0. From there on event 10 is
  in slot 0 and no consume returns it: the next \<open>try_consume\<close> finds nothing, and
  after \<open>try_publish(20)\<close> the consumes return 20 and then nothing, with cursor and
  consumer sequence both at 1. Two events were published with success and one was
  delivered.
\<close>

theorem C3_event_lost_between_claim_and_store:
  "\<exists>q0 q1 q2 q3.
     new_DisruptorQueue two_slot_config = Some q0 \<and> capacity q0 = 2 \<and>
     try_publish_overtaken (Some 10) q0 = Inr (True, None, q1) \<and>
     try_consume q1 = Inr (None, q1) \<and>
     try_publish (Some 20) q1 = Inr (True, q2) \<and>
     try_consume q2 = Inr (Some 20, q3) \<and>
     try_consume q3 = Inr (None, q3) \<and>
     cursor q3 = 1 \<and> consumer_sequence q3 = 1 \<and> buffer q3 = [Some (10 :: nat), None]"
proof (intro exI conjI)
  show "new_DisruptorQueue two_slot_config = Some (two_slot_queue [None, None] (- 1) (- 1))"
    by (rule two_slot_new)
  show "capacity (two_slot_queue [None, None] (- 1) (- 1)) = 2"
    by (simp add: capacity_def two_slot_queue_def two_slot_config_def)
  show "try_publish_overtaken (Some 10) (two_slot_queue [None, None] (- 1) (- 1)) =
          Inr (True, None, two_slot_queue [Some 10, None] 0 0)"
    by (rule two_slot_overtaken)
  show "try_consume (two_slot_queue [Some 10, None] 0 0) =
          Inr (None, two_slot_queue [Some 10, None] 0 0)"
    by (rule two_slot_looks_empty)
  show "try_publish (Some 20) (two_slot_queue [Some 10, None] 0 0) =
          Inr (True, two_slot_queue [Some 10, Some 20] 1 0)"
    by (rule two_slot_second_publish)
  show "try_consume (two_slot_queue [Some 10, Some 20] 1 0) =
          Inr (Some 20, two_slot_queue [Some 10, None] 1 1)"
    by (rule two_slot_second_consume)
  show "try_consume (two_slot_queue [Some 10, None] 1 1) =
          Inr (None, two_slot_queue [Some 10, None] 1 1)"
    by (rule two_slot_drained)
  show "cursor (two_slot_queue [Some 10, None] 1 1) = 1"
    and "consumer_sequence (two_slot_queue [Some 10, None] 1 1) = 1"
    and "buffer (two_slot_queue [Some 10, None] 1 1) = [Some 10, None]"
    by (simp_all add: two_slot_queue_def)
qed

subsection \<open>C9: what the constructor builds\<close>

text \<open>
  For a requested size that is a power of two between 2 and \<open>2 ^ 62\<close> the three
  agree: \<open>new_DisruptorQueue_valid\<close> above gives capacity \<open>2 ^ k\<close>, mask
  \<open>2 ^ k - 1\<close> and \<open>2 ^ k\<close> slots.
\<close>

lemma replicate_3: "replicate 3 x = [x, x, x]"
  by (simp add: numeral_3_eq_3)

lemma three_slot_validate:
  "DisruptorConfig_validate three_slot_config = Some (three_slot_config\<lparr>buffer_size := 4\<rparr>)"
  by (simp add: DisruptorConfig_validate_def three_slot_config_def default_DisruptorConfig_def
        next_power_loop.simps Let_def)

text \<open>
  Claim C9. For every requested buffer size, also one that is not a power of two, the
  queue's capacity is to be a power of two, the slot array is to hold exactly capacity
  slots and every slot index is to be the sequence \<open>AND (capacity - 1)\<close>. For the
  requested size 3 the constructor computes the mask and the slot array from 3 and
  validates afterwards: the capacity is 4, the mask is 2 and there are 3 slots.
  Sequences 0 and 1 both map to slot 0, so of two events published the first is
  overwritten: the consumer gets the second event and then nothing.
\<close>

theorem C9_mask_and_slots_from_unvalidated_size:
  "new_DisruptorQueue three_slot_config = Some three_slot_queue \<and>
   capacity three_slot_queue = 4 \<and>
   buffer_mask three_slot_queue = 2 \<and>
   length (buffer three_slot_queue) = 3 \<and>
   slot_index three_slot_queue 0 = 0 \<and>
   slot_index three_slot_queue 1 = 0 \<and>
   run_queue [Publish (Some 10), Publish (Some 20), Consume, Consume] three_slot_queue =
     Inr ([Published True, Published True, Consumed (Some 20), Consumed None],
          three_slot_queue\<lparr>cursor := 1, consumer_sequence := 1\<rparr>)"
proof -
  have "new_DisruptorQueue three_slot_config = Some three_slot_queue"
    unfolding new_DisruptorQueue_def three_slot_validate
    by (simp add: three_slot_queue_def three_slot_config_def default_DisruptorConfig_def
          Let_def replicate_3)
  then show ?thesis
    by (simp add: three_slot_queue_def three_slot_config_def default_DisruptorConfig_def
          capacity_def try_publish_def claim_next_sequence_def store_slot_def slot_index_def
          s64_def try_consume_def try_wait_for_def Let_def)
qed

section \<open>The dispatch loop: claim C2\<close>

subsection \<open>No round of the loop gives a block back\<close>

text \<open>
  \<open>deallocate\<close> is the one place, apart from the construction of a new block, where
  the flag of a block is cleared, and the loop does not reach it. Whatever the strategies and the simulator do, however many rounds
  are run, and also when a pool grows by a chunk, a block of the heap that is marked as
  allocated before \<open>process_events\<close> is marked as allocated after it.
\<close>

lemma block_at_update:
  "block_at (AList.update a b mem) p = (if p = a then b else block_at mem p)"
  by (simp add: block_at_def update_conv')

lemma push_free_block_flag:
  "is_allocated (block_at (blocks (push_free_block b pool)) p) =
   is_allocated (block_at (blocks pool) p)"
  by (simp add: push_free_block_def block_at_update)

lemma pop_free_block_flag:
  "pop_free_block pool = (r, pool') \<Longrightarrow>
   is_allocated (block_at (blocks pool') p) = is_allocated (block_at (blocks pool) p)"
  by (auto simp add: pop_free_block_def block_at_update Let_def split: option.splits if_splits)

lemma mark_allocated_flag:
  "is_allocated (block_at (blocks pool) p) \<Longrightarrow>
   is_allocated (block_at (blocks (mark_allocated b pool)) p)"
  by (simp add: mark_allocated_def block_at_update Let_def)

lemma fold_new_Block_other:
  "p \<notin> set as \<Longrightarrow> block_at (fold (\<lambda>a. AList.update a new_Block) as mem) p = block_at mem p"
  by (induction as arbitrary: mem) (auto simp add: block_at_update)

lemma fold_push_free_block_flag:
  "is_allocated (block_at (blocks (fold push_free_block as pool)) p) =
   is_allocated (block_at (blocks pool) p)"
  by (induction as arbitrary: pool) (simp_all add: push_free_block_flag)

lemma allocate_chunk_heap:
  "allocate_chunk n heap pool = (pool', heap') \<Longrightarrow> heap \<le> heap'"
  by (auto simp add: allocate_chunk_def Let_def)

lemma allocate_chunk_flag:
  assumes "allocate_chunk n heap pool = (pool', heap')" and "p < heap"
  shows "is_allocated (block_at (blocks pool') p) = is_allocated (block_at (blocks pool) p)"
proof -
  have "p \<notin> set (map (\<lambda>i. heap + i) [0..<unat n])"
    using assms(2) by auto
  then show ?thesis
    using assms(1)
    by (auto simp add: allocate_chunk_def Let_def fold_push_free_block_flag fold_new_Block_other)
qed

lemma expand_pool_heap:
  "expand_pool heap pool = (ok, pool', heap') \<Longrightarrow> heap \<le> heap'"
  by (auto simp add: expand_pool_def Let_def split: if_splits prod.splits
      dest: allocate_chunk_heap)

lemma expand_pool_flag:
  assumes "expand_pool heap pool = (ok, pool', heap')" and "p < heap"
  shows "is_allocated (block_at (blocks pool') p) = is_allocated (block_at (blocks pool) p)"
  using assms
  by (auto simp add: expand_pool_def Let_def split: if_splits prod.splits
      dest: allocate_chunk_flag)

lemma MemoryPool_allocate_heap:
  "MemoryPool_allocate heap pool = (r, pool', heap') \<Longrightarrow> heap \<le> heap'"
  by (auto simp add: MemoryPool_allocate_def
      split: prod.splits option.splits bool.splits dest: expand_pool_heap)

lemma MemoryPool_allocate_flag:
  assumes "MemoryPool_allocate heap pool = (r, pool', heap')" and "p < heap"
    and "is_allocated (block_at (blocks pool) p)"
  shows "is_allocated (block_at (blocks pool') p)"
  using assms
  by (auto simp add: MemoryPool_allocate_def
      split: prod.splits option.splits bool.splits
      dest: pop_free_block_flag expand_pool_flag intro!: mark_allocated_flag)

lemma create_trading_signal_event_keeps:
  assumes "create_trading_signal_event ev pool = (r, pool')"
    and "marked_allocated pool p" and "p < heap_break pool"
  shows "marked_allocated pool' p \<and> p < heap_break pool'"
proof -
  obtain r0 sp heap where
    a: "MemoryPool_allocate (heap_break pool) (signal_pool pool) = (r0, sp, heap)"
    by (metis prod_cases3)
  have h: "heap_break pool \<le> heap"
    and f: "is_allocated (block_at (blocks (signal_pool pool)) p) \<Longrightarrow>
            is_allocated (block_at (blocks sp) p)"
    using MemoryPool_allocate_flag [OF a assms(3)] MemoryPool_allocate_heap [OF a]
    by simp_all
  show ?thesis
    using assms a h f
    by (auto simp add: create_trading_signal_event_def marked_allocated_def
        split: option.splits)
qed

lemma create_trade_execution_event_keeps:
  assumes "create_trade_execution_event ev pool = (r, pool')"
    and "marked_allocated pool p" and "p < heap_break pool"
  shows "marked_allocated pool' p \<and> p < heap_break pool'"
proof -
  obtain r0 ep heap where
    a: "MemoryPool_allocate (heap_break pool) (execution_pool pool) = (r0, ep, heap)"
    by (metis prod_cases3)
  have h: "heap_break pool \<le> heap"
    and f: "is_allocated (block_at (blocks (execution_pool pool)) p) \<Longrightarrow>
            is_allocated (block_at (blocks ep) p)"
    using MemoryPool_allocate_flag [OF a assms(3)] MemoryPool_allocate_heap [OF a]
    by simp_all
  show ?thesis
    using assms a h f
    by (auto simp add: create_trade_execution_event_def marked_allocated_def
        split: option.splits)
qed

lemma add_event_safe_pool:
  "add_event_safe event eng = Inr eng' \<Longrightarrow> event_pool eng' = event_pool eng"
  by (auto simp add: add_event_safe_def split: option.splits sum.splits)

lemma process_market_data_event_keeps:
  assumes "process_market_data_event co e eng = Inr eng'"
    and "marked_allocated (event_pool eng) p" and "p < heap_break (event_pool eng)"
  shows "marked_allocated (event_pool eng') p \<and> p < heap_break (event_pool eng')"
  using assms
  by (auto simp add: process_market_data_event_def Let_def
      split: option.splits prod.splits
      dest!: add_event_safe_pool dest: create_trading_signal_event_keeps)

lemma process_trading_signal_event_keeps:
  assumes "process_trading_signal_event co e eng = Inr eng'"
    and "marked_allocated (event_pool eng) p" and "p < heap_break (event_pool eng)"
  shows "marked_allocated (event_pool eng') p \<and> p < heap_break (event_pool eng')"
  using assms
  by (auto simp add: process_trading_signal_event_def Let_def
      split: option.splits prod.splits
      dest!: add_event_safe_pool dest: create_trade_execution_event_keeps)

lemma process_one_event_keeps:
  assumes "process_one_event co eng = Inr eng'"
    and "marked_allocated (event_pool eng) p" and "p < heap_break (event_pool eng)"
  shows "marked_allocated (event_pool eng') p \<and> p < heap_break (event_pool eng')"
proof -
  obtain event eq where d: "dequeue (event_queue eng) = Inr (event, eq)"
    using assms(1) by (auto simp add: process_one_event_def split: sum.splits)
  let ?eng1 = "eng\<lparr>event_queue := eq\<rparr>"
  have pool1: "event_pool ?eng1 = event_pool eng" by simp
  show ?thesis
  proof (cases "case event of None \<Rightarrow> None | Some ptr \<Rightarrow> map_of (cells (event_pool eng)) ptr")
    case None
    then have "eng' = ?eng1"
      using assms(1) d by (auto simp add: process_one_event_def Let_def split: option.splits)
    then show ?thesis using assms(2,3) by simp
  next
    case (Some ev)
    then obtain ptr where ptr: "event = Some ptr" "map_of (cells (event_pool eng)) ptr = Some ev"
      by (auto split: option.splits)
    show ?thesis
    proof (cases ev)
      case (MarketData e)
      then have "process_market_data_event co e ?eng1 = Inr eng'"
        using assms(1) d ptr by (simp add: process_one_event_def Let_def)
      from process_market_data_event_keeps [OF this] assms(2,3) show ?thesis by simp
    next
      case (TradingSignal e)
      then have "process_trading_signal_event co e ?eng1 = Inr eng'"
        using assms(1) d ptr by (simp add: process_one_event_def Let_def)
      from process_trading_signal_event_keeps [OF this] assms(2,3) show ?thesis by simp
    next
      case (TradeExecution e)
      then have "eng' = process_trade_execution_event e ?eng1"
        using assms(1) d ptr by (simp add: process_one_event_def Let_def)
      then show ?thesis using assms(2,3) by (simp add: process_trade_execution_event_def)
    next
      case OtherEvent
      then have "eng' = ?eng1"
        using assms(1) d ptr by (simp add: process_one_event_def Let_def)
      then show ?thesis using assms(2,3) by simp
    qed
  qed
qed

lemma process_events_keeps_allocated:
  assumes "process_events co rounds eng = Inr eng'"
    and "marked_allocated (event_pool eng) p" and "p < heap_break (event_pool eng)"
  shows "marked_allocated (event_pool eng') p \<and> p < heap_break (event_pool eng')"
  using assms
proof (induction rounds arbitrary: eng)
  case 0
  then show ?case by simp
next
  case (Suc rounds)
  from Suc.prems(1) obtain eng1 where one: "process_one_event co eng = Inr eng1"
    and rest: "process_events co rounds eng1 = Inr eng'"
    by (auto split: sum.splits)
  from process_one_event_keeps [OF one Suc.prems(2,3)]
  have "marked_allocated (event_pool eng1) p" "p < heap_break (event_pool eng1)" by simp_all
  from Suc.IH [OF rest this] show ?case .
qed

subsection \<open>C2: one event from creation to dispatch\<close>

lemma replicate_8: "replicate 8 x = [x, x, x, x, x, x, x, x]"
  by (simp add: eval_nat_numeral)

lemma small_bus_new:
  "new_EventQueue small_bus_config = Some (small_bus (replicate 8 None) (- 1) (- 1))"
  by (simp add: new_EventQueue_def small_bus_config_def default_EventQueueConfig_def
      new_DisruptorQueue_def DisruptorConfig_validate_def Let_def small_bus_def
      default_DisruptorConfig_def)

lemmas pool_defs =
  MemoryPool_allocate_def MemoryPool_deallocate_def pop_free_block_def push_free_block_def
  mark_allocated_def block_at_def new_Block_def small_pool_def small_pool_config_def
  default_MemoryPoolConfig_def free_blocks_def

text \<open>
  The small pool is a pool at work: the execution pool is built for two blocks, both
  are allocated and then given back.
\<close>

lemma small_pool_new:
  "new_MemoryPool (small_pool_config 2) 1 =
     (small_pool 2 [(1, 2)]
        [(1, \<lparr>next_block = None, is_allocated = False\<rparr>),
         (2, \<lparr>next_block = Some 1, is_allocated = False\<rparr>)] (Some 2), 3)"
proof -
  have "[0..<(2 :: nat)] = [0, 1]"
    by (simp add: upt_conv_Cons)
  then have "[0..<unat (2 :: size_t)] = [0, 1]"
    by simp
  then show ?thesis
    by (simp add: new_MemoryPool_def allocate_chunk_def pool_defs Let_def)
qed

lemma fresh_pool_reached:
  "\<exists>p0 p1 p2 heap.
     new_MemoryPool (small_pool_config 2) 1 = (p0, heap) \<and>
     MemoryPool_allocate heap p0 = (Some 2, p1, heap) \<and>
     MemoryPool_allocate heap p1 = (Some 1, p2, heap) \<and>
     MemoryPool_deallocate (Some 1) (MemoryPool_deallocate (Some 2) p2) =
       execution_pool fresh_pool \<and>
     heap = heap_break fresh_pool"
  unfolding small_pool_new
  by (simp add: fresh_pool_def pool_defs Let_def)

lemma small_pool_create:
  "create_trade_execution_event scenario_buy fresh_pool = (Some 1, pool_in_use)"
  by (simp add: create_trade_execution_event_def fresh_pool_def pool_in_use_def pool_defs Let_def)

lemma small_bus_enqueue:
  "add_event_safe (Some 1) (small_engine (small_bus (replicate 8 None) (- 1) (- 1)) pool) =
     Inr (small_engine (small_bus ((replicate 8 None)[0 := Some 1]) 0 (- 1)) pool)"
  by (simp add: add_event_safe_def small_engine_def small_bus_def enqueue_def
      small_bus_config_def default_EventQueueConfig_def publish_def claim_next_sequence_def
      store_slot_def slot_index_def s64_def Let_def replicate_8)

lemma small_bus_step:
  "map_of (cells pool) 1 = Some (TradeExecution e) \<Longrightarrow>
   process_one_event co (small_engine (small_bus ((replicate 8 None)[0 := Some 1]) 0 (- 1)) pool) =
     Inr ((small_engine (small_bus (replicate 8 None) 0 0) pool)
            \<lparr>position_manager := on_trade_execution e (new_PositionManager 100000)\<rparr>)"
  by (simp add: process_one_event_def small_engine_def small_bus_def dequeue_def
      small_bus_config_def default_EventQueueConfig_def try_consume_def try_wait_for_def
      slot_index_def s64_def Let_def replicate_8 process_trade_execution_event_def)

lemma small_bus_idle:
  "process_one_event co
     ((small_engine (small_bus (replicate 8 None) 0 0) pool)\<lparr>position_manager := pm\<rparr>) =
   Inr ((small_engine (small_bus (replicate 8 None) 0 0) pool)\<lparr>position_manager := pm\<rparr>)"
  by (simp add: process_one_event_def small_engine_def small_bus_def dequeue_def
      small_bus_config_def default_EventQueueConfig_def try_consume_def try_wait_for_def
      slot_index_def s64_def Let_def)

lemma small_bus_empty:
  "dequeue (small_bus (replicate 8 None) 0 0) = Inr (None, small_bus (replicate 8 None) 0 0)"
  by (simp add: small_bus_def dequeue_def small_bus_config_def default_EventQueueConfig_def
      try_consume_def try_wait_for_def s64_def Let_def)

lemma small_trade_history:
  "trade_history (on_trade_execution scenario_buy (new_PositionManager 100000)) = [scenario_buy]"
  by (simp add: ledger_defs scenario_buy_def Let_def)

lemma pool_in_use_free: "free_cells pool_in_use = {2}"
  by (simp add: pool_in_use_def fresh_pool_def free_cells_def pool_defs numeral_2_eq_2)

lemma pool_in_use_destroy: "free_cells (destroy_event (Some 1) pool_in_use) = {1, 2}"
  by (simp add: pool_in_use_def fresh_pool_def free_cells_def destroy_event_def pool_defs
      Let_def numeral_2_eq_2)

text \<open>
  Releasing the same event twice links the block to itself, and the blocks that were
  on the free list are no longer reached from the head.
\<close>

lemma double_release_self_loop:
  "next_block (block_at (blocks (execution_pool
       (destroy_event (Some 1) (destroy_event (Some 1) pool_in_use)))) 1) = Some 1 \<and>
   free_cells (destroy_event (Some 1) (destroy_event (Some 1) pool_in_use)) = {1}"
  by (simp add: pool_in_use_def fresh_pool_def free_cells_def destroy_event_def pool_defs
      Let_def numeral_2_eq_2)

lemma small_engine_run:
  "process_events idle_collaborators 3
     (small_engine (small_bus ((replicate 8 None)[0 := Some 1]) 0 (- 1)) pool_in_use) =
   Inr ((small_engine (small_bus (replicate 8 None) 0 0) pool_in_use)
          \<lparr>position_manager := on_trade_execution scenario_buy (new_PositionManager 100000)\<rparr>)"
proof -
  have cell: "map_of (cells pool_in_use) 1 = Some (TradeExecution scenario_buy)"
    by (simp add: pool_in_use_def)
  show ?thesis
    by (simp only: numeral_3_eq_3 process_events.simps small_bus_step [OF cell] small_bus_idle
        sum.case)
qed

text \<open>
  Claim C2. Every event the dispatch loop pulls from the bus is to be released to its
  pool after it has been dispatched, so that every event that enters the bus is released
  exactly once. In the run below the fill ``buy 100 AAPL at 150'' is created in block 1
  of the pool and enters a bus of 8 slots; three rounds of \<open>process_events\<close> pull it,
  dispatch it to the ledger (the trade history holds it) and leave the bus empty. The
  pool is then what it was when the event entered the bus: block 1 is on no free list,
  it has been released zero times. One call of \<open>destroy_event\<close> would have returned
  it.
\<close>

theorem C2_dispatched_event_never_released:
  "\<exists>bus pool eng0 eng.
     new_EventQueue small_bus_config = Some bus \<and>
     create_trade_execution_event scenario_buy fresh_pool = (Some 1, pool) \<and>
     add_event_safe (Some 1) (small_engine bus pool) = Inr eng0 \<and>
     process_events idle_collaborators 3 eng0 = Inr eng \<and>
     dequeue (event_queue eng) = Inr (None, event_queue eng) \<and>
     trade_history (position_manager eng) = [scenario_buy] \<and>
     event_pool eng = pool \<and>
     free_cells (event_pool eng) = {2} \<and>
     free_cells (destroy_event (Some 1) (event_pool eng)) = {1, 2}"
proof (intro exI conjI)
  let ?eng = "(small_engine (small_bus (replicate 8 None) 0 0) pool_in_use)
          \<lparr>position_manager := on_trade_execution scenario_buy (new_PositionManager 100000)\<rparr>"
  show "new_EventQueue small_bus_config = Some (small_bus (replicate 8 None) (- 1) (- 1))"
    by (rule small_bus_new)
  show "create_trade_execution_event scenario_buy fresh_pool = (Some 1, pool_in_use)"
    by (rule small_pool_create)
  show "add_event_safe (Some 1)
          (small_engine (small_bus (replicate 8 None) (- 1) (- 1)) pool_in_use) =
        Inr (small_engine (small_bus ((replicate 8 None)[0 := Some 1]) 0 (- 1)) pool_in_use)"
    by (rule small_bus_enqueue)
  show "process_events idle_collaborators 3
          (small_engine (small_bus ((replicate 8 None)[0 := Some 1]) 0 (- 1)) pool_in_use) =
        Inr ?eng"
    by (rule small_engine_run)
  have queue: "event_queue ?eng = small_bus (replicate 8 None) 0 0"
    and pool: "event_pool ?eng = pool_in_use"
    and pm: "position_manager ?eng =
               on_trade_execution scenario_buy (new_PositionManager 100000)"
    by (simp_all add: small_engine_def)
  show "dequeue (event_queue ?eng) = Inr (None, event_queue ?eng)"
    unfolding queue by (rule small_bus_empty)
  show "trade_history (position_manager ?eng) = [scenario_buy]"
    unfolding pm by (rule small_trade_history)
  show "event_pool ?eng = pool_in_use"
    by (rule pool)
  show "free_cells (event_pool ?eng) = {2}"
    unfolding pool by (rule pool_in_use_free)
  show "free_cells (destroy_event (Some 1) (event_pool ?eng)) = {1, 2}"
    unfolding pool by (rule pool_in_use_destroy)
qed

end
